theory Spec2Isabelle
  imports Complex_Main
begin

section \<open>Strings of the runtime\<close>

text \<open>
  The handler of \<^verbatim>\<open>src/app/api/chat/route.ts\<close> works on JavaScript strings. They are
  modelled as \<open>string\<close>, a list of code units below 256 (Latin-1); on these the functions
  below are the ECMAScript ones. Code units above 255 are outside the model.
\<close>

definition is_space :: "char \<Rightarrow> bool" where
  \<comment> \<open>the class \<^verbatim>\<open>\s\<close> of a regular expression, which is also what \<^verbatim>\<open>trim\<close> removes\<close>
  "is_space c = (of_char c \<in> {9, 10, 11, 12, 13, 32, 160 :: nat})"

definition lower_char :: "char \<Rightarrow> char" where
  "lower_char c =
     (let n = of_char c :: nat
      in if (65 \<le> n \<and> n \<le> 90) \<or> (192 \<le> n \<and> n \<le> 214) \<or> (216 \<le> n \<and> n \<le> 222)
         then char_of (n + 32) else c)"

definition toLowerCase :: "string \<Rightarrow> string" where
  "toLowerCase s = map lower_char s"

definition startsWith :: "string \<Rightarrow> string \<Rightarrow> bool" where
  \<comment> \<open>\<^verbatim>\<open>s.startsWith(p)\<close>\<close>
  "startsWith s p = (take (length p) s = p)"

fun includes_str :: "string \<Rightarrow> string \<Rightarrow> bool" where
  \<comment> \<open>\<^verbatim>\<open>s.includes(m)\<close>: \<open>m\<close> occurs in \<open>s\<close> at some position\<close>
  "includes_str [] m = (m = [])"
| "includes_str (c # cs) m = (startsWith (c # cs) m \<or> includes_str cs m)"

definition trim :: "string \<Rightarrow> string" where
  "trim s = rev (dropWhile is_space (rev (dropWhile is_space s)))"

fun join :: "string \<Rightarrow> string list \<Rightarrow> string" where
  \<comment> \<open>\<^verbatim>\<open>xs.join(sep)\<close> on an array of strings\<close>
  "join sep [] = []"
| "join sep [x] = x"
| "join sep (x # y # ys) = x @ sep @ join sep (y # ys)"

section \<open>JSON values\<close>

text \<open>
  What \<^verbatim>\<open>JSON.parse\<close> and \<^verbatim>\<open>req.json()\<close> produce. An object is the list of its
  entries; \<open>map_of\<close> reads a property, \<open>None\<close> being \<^verbatim>\<open>undefined\<close>. A number is kept
  by its value (a literal that overflows to an infinity is outside the model). The type
  annotations of the source are erased when it runs, so the model follows the values:
  where the source calls a method that a value does not have, the model has a
  \<open>TypeError\<close>.
\<close>

datatype json =
    JNull
  | JBool bool
  | JNum rat
  | JStr string
  | JArr "json list"
  | JObj "(string \<times> json) list"

datatype error = SyntaxError | TypeError | ServiceError

fun truthy :: "json \<Rightarrow> bool" where
  "truthy JNull = False"
| "truthy (JBool b) = b"
| "truthy (JNum q) = (q \<noteq> 0)"
| "truthy (JStr s) = (s \<noteq> [])"
| "truthy (JArr xs) = True"
| "truthy (JObj kvs) = True"

section \<open>The URL audit: \<^verbatim>\<open>validateAndFilterUrls\<close>\<close>

text \<open>
  \<^verbatim>\<open>text.match(/https?:\/\/[^\s)]+/g) || []\<close>: the matches from left to right, each the
  longest at its position, the search resuming after a match.
\<close>

definition url_char :: "char \<Rightarrow> bool" where
  \<comment> \<open>the class \<^verbatim>\<open>[^\s)]\<close>\<close>
  "url_char c = (\<not> is_space c \<and> c \<noteq> CHR '')'')"

definition match_at :: "string \<Rightarrow> string option" where
  \<comment> \<open>the match of the pattern that starts at the head of the string, if there is one\<close>
  "match_at s =
     (let scheme = (if startsWith s ''https://'' then Some ''https://''
                    else if startsWith s ''http://'' then Some ''http://'' else None)
      in case scheme of
           None \<Rightarrow> None
         | Some p \<Rightarrow>
             (let rest = takeWhile url_char (drop (length p) s)
              in if rest = [] then None else Some (p @ rest)))"

fun scan :: "nat \<Rightarrow> string \<Rightarrow> string list" where
  \<comment> \<open>\<open>scan k s\<close>: the matches in \<open>s\<close>, whose first \<open>k\<close> characters belong to the last match\<close>
  "scan k [] = []"
| "scan (Suc k) (c # cs) = scan k cs"
| "scan 0 (c # cs) =
     (case match_at (c # cs) of
        Some u \<Rightarrow> u # scan (length u - 1) cs
      | None \<Rightarrow> scan 0 cs)"

definition foundUrls :: "string \<Rightarrow> string list" where
  "foundUrls text = scan 0 text"

fun isValid :: "json list \<Rightarrow> string \<Rightarrow> error + bool" where
  \<comment> \<open>\<^verbatim>\<open>validUrls.some(validUrl => validUrl.toLowerCase() === url.toLowerCase() ||
      url.startsWith(validUrl))\<close>; an entry that is not a string has no \<^verbatim>\<open>toLowerCase\<close>\<close>
  "isValid [] url = Inr False"
| "isValid (JStr validUrl # vs) url =
     (if toLowerCase validUrl = toLowerCase url \<or> startsWith url validUrl then Inr True
      else isValid vs url)"
| "isValid (v # vs) url = Inl TypeError"

definition warning_for :: "string \<Rightarrow> string" where
  \<comment> \<open>the line given to \<^verbatim>\<open>console.warn\<close>\<close>
  "warning_for url = ''Filtered out invalid BBS URL: '' @ url"

fun audit_urls :: "json list \<Rightarrow> string list \<Rightarrow> error option \<times> string list" where
  \<comment> \<open>the \<^verbatim>\<open>forEach\<close> over the found URLs; the second component is what \<^verbatim>\<open>console.warn\<close>
      received, the first an exception that ended the loop\<close>
  "audit_urls validUrls [] = (None, [])"
| "audit_urls validUrls (url # urls) =
     (if includes_str url ''BBSwheels.com'' then
        (case isValid validUrls url of
           Inl e \<Rightarrow> (Some e, [])
         | Inr ok \<Rightarrow>
             (let (r, warns) = audit_urls validUrls urls
              in (r, (if ok then [] else [warning_for url]) @ warns)))
      else audit_urls validUrls urls)"

definition validateAndFilterUrls :: "string \<Rightarrow> json list \<Rightarrow> (error + string) \<times> string list" where
  "validateAndFilterUrls text validUrls =
     (let filteredText = text
      in case audit_urls validUrls (foundUrls text) of
           (Some e, warns) \<Rightarrow> (Inl e, warns)
         | (None, warns) \<Rightarrow> (Inr filteredText, warns))"


section \<open>The request handler: \<^verbatim>\<open>POST\<close>\<close>

subsection \<open>Collaborators\<close>

datatype model = Gpt4o | Gpt4oMini

record gen_request =
  model :: model
  ui_messages :: "json list"
  temperature :: rat
  abortSignal :: nat
  onFinish_urls :: "json list option"
  onAbort :: string

text \<open>
  A \<open>gen_request\<close> is the argument of \<^verbatim>\<open>streamText\<close>: \<open>ui_messages\<close> is the list
  \<^verbatim>\<open>[systemMessage, ...messages]\<close> handed to \<^verbatim>\<open>convertToModelMessages\<close>,
  \<open>onFinish_urls\<close> the \<^verbatim>\<open>validCollectionUrls\<close> that the \<^verbatim>\<open>onFinish\<close> callback
  captured (\<open>None\<close> where the call has no such callback), \<open>onAbort\<close> what the
  \<^verbatim>\<open>onAbort\<close> callback logs.
\<close>

datatype content_value = Text string | Structured json

record search_result =
  content :: content_value
  metadata :: "json option"

record env =
  BBS_SYSTEM_PROMPT :: string
  vectorStores_search :: "string \<Rightarrow> nat \<Rightarrow> search_result list option"
  JSON_parse :: "string \<Rightarrow> json option"
  JSON_stringify :: "json \<Rightarrow> string"
  String_of :: "json \<Rightarrow> string option"
  array_like_last :: "(string \<times> json) list \<Rightarrow> json option"
  streamText_throws :: "gen_request \<Rightarrow> bool"

text \<open>
  What the handler does not own is a field of \<open>env\<close>:
  \<^item> \<open>BBS_SYSTEM_PROMPT\<close>, the fixed instruction template;
  \<^item> \<open>vectorStores_search query max_num_results\<close>, the search call, \<open>None\<close> when it throws;
  \<^item> \<open>JSON_parse\<close>, \<open>None\<close> when it throws, and \<open>JSON_stringify\<close>;
  \<^item> \<open>String_of v\<close>, the string that \<^verbatim>\<open>join\<close> makes of a value \<open>v\<close> that is neither a
    string nor \<^verbatim>\<open>null\<close>, \<open>None\<close> when that conversion throws;
  \<^item> \<open>array_like_last kvs\<close>, the value of \<^verbatim>\<open>messages[messages.length - 1]\<close> when
    \<^verbatim>\<open>messages\<close> is the object with the entries \<open>kvs\<close> and not an array (it depends on the
    numeric conversion of its \<^verbatim>\<open>length\<close> entry);
  \<^item> \<open>streamText_throws r\<close>, whether \<^verbatim>\<open>convertToModelMessages\<close>, \<^verbatim>\<open>streamText\<close> or
    \<^verbatim>\<open>toUIMessageStreamResponse\<close> throws on the request \<open>r\<close>.
\<close>

record request =
  body :: "json option"
  signal :: nat

text \<open>\<open>body\<close> is what \<^verbatim>\<open>req.json()\<close> resolves to, \<open>None\<close> when it rejects.\<close>

datatype event =
    SearchCall string nat
  | GenerateCall gen_request
  | LogPrimary nat
  | LogSecondary nat
  | LogError error

datatype outcome = Responded gen_request | Rejected error

subsection \<open>Before the \<^verbatim>\<open>try\<close> block\<close>

definition destructure_messages :: "json \<Rightarrow> error + json option" where
  \<comment> \<open>\<^verbatim>\<open>const { messages } = await req.json()\<close>\<close>
  "destructure_messages b =
     (case b of
        JNull \<Rightarrow> Inl TypeError
      | JObj kvs \<Rightarrow> Inr (map_of kvs ''messages'')
      | _ \<Rightarrow> Inr None)"

definition lastMessage_of :: "env \<Rightarrow> json option \<Rightarrow> error + json option" where
  \<comment> \<open>\<^verbatim>\<open>messages[messages.length - 1]\<close>\<close>
  "lastMessage_of env messages =
     (case messages of
        None \<Rightarrow> Inl TypeError
      | Some JNull \<Rightarrow> Inl TypeError
      | Some (JArr ms) \<Rightarrow> Inr (if ms = [] then None else Some (last ms))
      | Some (JStr s) \<Rightarrow> Inr (if s = [] then None else Some (JStr [last s]))
      | Some (JObj kvs) \<Rightarrow> Inr (array_like_last env kvs)
      | Some _ \<Rightarrow> Inr None)"

definition parts_of :: "json option \<Rightarrow> error + json list" where
  \<comment> \<open>\<^verbatim>\<open>lastMessage.parts\<close>, which must have the methods of an array\<close>
  "parts_of lastMessage =
     (case lastMessage of
        Some (JObj kvs) \<Rightarrow>
          (case map_of kvs ''parts'' of Some (JArr ps) \<Rightarrow> Inr ps | _ \<Rightarrow> Inl TypeError)
      | _ \<Rightarrow> Inl TypeError)"

fun text_parts :: "json list \<Rightarrow> error + json option list" where
  \<comment> \<open>\<^verbatim>\<open>.filter((part) => part.type === "text").map((part) => part.text)\<close>\<close>
  "text_parts [] = Inr []"
| "text_parts (JNull # ps) = Inl TypeError"
| "text_parts (JObj kvs # ps) =
     (case text_parts ps of
        Inl e \<Rightarrow> Inl e
      | Inr ts \<Rightarrow>
          Inr (if map_of kvs ''type'' = Some (JStr ''text'') then map_of kvs ''text'' # ts else ts))"
| "text_parts (p # ps) = text_parts ps"

fun join_texts :: "env \<Rightarrow> json option list \<Rightarrow> error + string list" where
  \<comment> \<open>the strings that \<^verbatim>\<open>.join(" ")\<close> makes of the elements\<close>
  "join_texts env [] = Inr []"
| "join_texts env (t # ts) =
     (case (case t of
              None \<Rightarrow> Some []
            | Some JNull \<Rightarrow> Some []
            | Some (JStr s) \<Rightarrow> Some s
            | Some v \<Rightarrow> String_of env v) of
        None \<Rightarrow> Inl TypeError
      | Some s \<Rightarrow> (case join_texts env ts of Inl e \<Rightarrow> Inl e | Inr ss \<Rightarrow> Inr (s # ss)))"

fun some_image :: "json list \<Rightarrow> error + bool" where
  \<comment> \<open>\<^verbatim>\<open>.some((part) => part.type === "file" && part.mediaType?.startsWith("image/"))\<close>\<close>
  "some_image [] = Inr False"
| "some_image (JNull # ps) = Inl TypeError"
| "some_image (JObj kvs # ps) =
     (if map_of kvs ''type'' = Some (JStr ''file'') then
        (case map_of kvs ''mediaType'' of
           None \<Rightarrow> some_image ps
         | Some JNull \<Rightarrow> some_image ps
         | Some (JStr s) \<Rightarrow> if startsWith s ''image/'' then Inr True else some_image ps
         | Some _ \<Rightarrow> Inl TypeError)
      else some_image ps)"
| "some_image (p # ps) = some_image ps"

record parsed_request =
  req_messages :: json
  lastParts :: "json list"
  userQuery :: string
  hasImages :: bool

definition read_request :: "env \<Rightarrow> json \<Rightarrow> error + parsed_request" where
  \<comment> \<open>lines 236 to 248: everything between \<^verbatim>\<open>req.json()\<close> and the \<^verbatim>\<open>try\<close>\<close>
  "read_request env b =
     (case destructure_messages b of
        Inl e \<Rightarrow> Inl e
      | Inr messages \<Rightarrow>
     (case lastMessage_of env messages of
        Inl e \<Rightarrow> Inl e
      | Inr lastMessage \<Rightarrow>
     (case parts_of lastMessage of
        Inl e \<Rightarrow> Inl e
      | Inr ps \<Rightarrow>
     (case text_parts ps of
        Inl e \<Rightarrow> Inl e
      | Inr ts \<Rightarrow>
     (case join_texts env ts of
        Inl e \<Rightarrow> Inl e
      | Inr ss \<Rightarrow>
     (case some_image ps of
        Inl e \<Rightarrow> Inl e
      | Inr img \<Rightarrow>
          Inr \<lparr>req_messages = (case messages of Some m \<Rightarrow> m | None \<Rightarrow> JNull),
               lastParts = ps, userQuery = join '' '' ss, hasImages = img\<rparr>))))))"

subsection \<open>Inside the \<^verbatim>\<open>try\<close> block: retrieval\<close>

definition contentString :: "env \<Rightarrow> search_result \<Rightarrow> string" where
  \<comment> \<open>\<^verbatim>\<open>typeof result.content === "string" ? result.content : JSON.stringify(result.content)\<close>\<close>
  "contentString env r =
     (case content r of Text s \<Rightarrow> s | Structured v \<Rightarrow> JSON_stringify env v)"

definition own_url :: "json \<Rightarrow> json list" where
  \<comment> \<open>\<^verbatim>\<open>if (x.collection_url) validCollectionUrls.push(x.collection_url)\<close> for \<open>x\<close> not
      \<^verbatim>\<open>null\<close>: what is pushed\<close>
  "own_url x =
     (case x of
        JObj kvs \<Rightarrow>
          (case map_of kvs ''collection_url'' of
             Some u \<Rightarrow> if truthy u then [u] else []
           | None \<Rightarrow> [])
      | _ \<Rightarrow> [])"

fun item_urls :: "json list \<Rightarrow> json list" where
  \<comment> \<open>the inner \<^verbatim>\<open>parsed.forEach\<close>; reading a property of \<^verbatim>\<open>null\<close> throws, which ends
      the loop in the enclosing \<^verbatim>\<open>catch\<close>\<close>
  "item_urls [] = []"
| "item_urls (JNull # items) = []"
| "item_urls (item # items) = own_url item @ item_urls items"

definition parsed_urls :: "json \<Rightarrow> json list" where
  \<comment> \<open>the body of the inner \<^verbatim>\<open>try\<close>, after \<^verbatim>\<open>JSON.parse\<close>\<close>
  "parsed_urls parsed =
     (case parsed of
        JNull \<Rightarrow> []
      | JArr items \<Rightarrow> item_urls items
      | _ \<Rightarrow> own_url parsed)"

definition result_urls :: "env \<Rightarrow> search_result \<Rightarrow> json list" where
  "result_urls env r =
     (case JSON_parse env (contentString env r) of
        None \<Rightarrow> []
      | Some parsed \<Rightarrow> parsed_urls parsed)"

fun collect_urls :: "env \<Rightarrow> search_result list \<Rightarrow> json list" where
  \<comment> \<open>the first \<^verbatim>\<open>searchResults.data.forEach\<close>: the final \<^verbatim>\<open>validCollectionUrls\<close>\<close>
  "collect_urls env [] = []"
| "collect_urls env (r # rs) = result_urls env r @ collect_urls env rs"

definition fileName_of :: "json option \<Rightarrow> json" where
  \<comment> \<open>\<^verbatim>\<open>const metadata = result.metadata || {}\<close> and
      \<^verbatim>\<open>metadata.file_name || metadata.filename || ""\<close>\<close>
  "fileName_of md =
     (let metadata = (case md of Some m \<Rightarrow> if truthy m then m else JObj [] | None \<Rightarrow> JObj []);
          prop = (\<lambda>k. case metadata of JObj kvs \<Rightarrow> map_of kvs k | _ \<Rightarrow> None)
      in case prop ''file_name'' of
           Some a \<Rightarrow>
             if truthy a then a
             else (case prop ''filename'' of
                     Some b \<Rightarrow> if truthy b then b else JStr []
                   | None \<Rightarrow> JStr [])
         | None \<Rightarrow>
             (case prop ''filename'' of
                Some b \<Rightarrow> if truthy b then b else JStr []
              | None \<Rightarrow> JStr []))"

definition is_primary :: "json option \<Rightarrow> error + bool" where
  \<comment> \<open>\<^verbatim>\<open>fileName.toLowerCase().includes("BBS_wheels.json")\<close>\<close>
  "is_primary md =
     (case fileName_of md of
        JStr fileName \<Rightarrow> Inr (includes_str (toLowerCase fileName) ''BBS_wheels.json'')
      | _ \<Rightarrow> Inl TypeError)"

fun partition_results :: "env \<Rightarrow> search_result list \<Rightarrow> error + string list \<times> string list" where
  \<comment> \<open>the second \<^verbatim>\<open>forEach\<close>: \<^verbatim>\<open>BBSWheelsData\<close> and \<^verbatim>\<open>otherData\<close>\<close>
  "partition_results env [] = Inr ([], [])"
| "partition_results env (r # rs) =
     (case is_primary (metadata r) of
        Inl e \<Rightarrow> Inl e
      | Inr primary \<Rightarrow>
          (case partition_results env rs of
             Inl e \<Rightarrow> Inl e
           | Inr (BBSWheelsData, otherData) \<Rightarrow>
               if primary then Inr (contentString env r # BBSWheelsData, otherData)
               else Inr (BBSWheelsData, contentString env r # otherData)))"

definition separator :: string where
  "separator = [CHR 0x0A, CHR 0x0A] @ ''---'' @ [CHR 0x0A, CHR 0x0A]"

record retrieved =
  contextText :: string
  validCollectionUrls :: "json list"

definition retrieve :: "env \<Rightarrow> string \<Rightarrow> (error + retrieved) \<times> event list" where
  \<comment> \<open>lines 252 to 322; the events are the calls and log lines made on the way\<close>
  "retrieve env q =
     (if trim q \<noteq> [] then
        (case vectorStores_search env q 10 of
           None \<Rightarrow> (Inl ServiceError, [SearchCall q 10])
         | Some results \<Rightarrow>
             (case partition_results env results of
                Inl e \<Rightarrow> (Inl e, [SearchCall q 10])
              | Inr (BBSWheelsData, otherData) \<Rightarrow>
                  (Inr \<lparr>contextText = join separator (BBSWheelsData @ otherData),
                        validCollectionUrls = collect_urls env results\<rparr>,
                   [SearchCall q 10]
                   @ (if length BBSWheelsData > 0 then [LogPrimary (length BBSWheelsData)] else [])
                   @ (if length otherData > 0 then [LogSecondary (length otherData)] else []))))
      else (Inr \<lparr>contextText = [], validCollectionUrls = []\<rparr>, []))"

subsection \<open>Prompt assembly and generation\<close>

definition context_block :: "string \<Rightarrow> string" where
  "context_block ctx =
     [CHR 0x0A, CHR 0x0A] @ ''===== VECTOR DB DATA ====='' @ [CHR 0x0A] @ ctx
     @ [CHR 0x0A] @ ''===== END VECTOR DB DATA ====='' @ [CHR 0x0A]"

definition systemPromptWithContext :: "env \<Rightarrow> string \<Rightarrow> string" where
  "systemPromptWithContext env ctx =
     BBS_SYSTEM_PROMPT env @ [CHR 0x0A, CHR 0x0A] @ (if ctx \<noteq> [] then context_block ctx else [])"

definition systemMessage :: "string \<Rightarrow> json" where
  "systemMessage txt =
     JObj [(''id'', JStr ''system''), (''role'', JStr ''system''),
           (''parts'', JArr [JObj [(''type'', JStr ''text''), (''text'', JStr txt)]])]"

definition spread :: "json \<Rightarrow> error + json list" where
  \<comment> \<open>\<^verbatim>\<open>...messages\<close>: only an array or a string can be iterated\<close>
  "spread v =
     (case v of
        JArr ms \<Rightarrow> Inr ms
      | JStr s \<Rightarrow> Inr (map (\<lambda>c. JStr [c]) s)
      | _ \<Rightarrow> Inl TypeError)"

definition streamText :: "env \<Rightarrow> json \<Rightarrow> (json list \<Rightarrow> gen_request) \<Rightarrow> (error + gen_request) \<times> event list" where
  \<comment> \<open>\<^verbatim>\<open>streamText({ ..., messages: convertToModelMessages([systemMessage, ...messages]) })\<close>
      followed by \<^verbatim>\<open>toUIMessageStreamResponse()\<close>; \<open>mk\<close> builds the request from the spread
      messages\<close>
  "streamText env msgs mk =
     (case spread msgs of
        Inl e \<Rightarrow> (Inl e, [])
      | Inr ms \<Rightarrow>
          (if streamText_throws env (mk ms) then (Inl ServiceError, [GenerateCall (mk ms)])
           else (Inr (mk ms), [GenerateCall (mk ms)])))"

definition primary_request :: "env \<Rightarrow> request \<Rightarrow> parsed_request \<Rightarrow> retrieved \<Rightarrow> json list \<Rightarrow> gen_request" where
  "primary_request env req p r ms =
     \<lparr>model = (if hasImages p then Gpt4o else Gpt4oMini),
      ui_messages = systemMessage (systemPromptWithContext env (contextText r)) # ms,
      temperature = 3 / 10,
      abortSignal = signal req,
      onFinish_urls = Some (validCollectionUrls r),
      onAbort = ''Stream aborted by client''\<rparr>"

definition fallback_request :: "env \<Rightarrow> request \<Rightarrow> json list \<Rightarrow> gen_request" where
  "fallback_request env req ms =
     \<lparr>model = Gpt4o,
      ui_messages = systemMessage (BBS_SYSTEM_PROMPT env) # ms,
      temperature = 3 / 10,
      abortSignal = signal req,
      onFinish_urls = None,
      onAbort = ''Stream aborted by client (fallback path)''\<rparr>"

definition try_block :: "env \<Rightarrow> request \<Rightarrow> parsed_request \<Rightarrow> (error + gen_request) \<times> event list" where
  "try_block env req p =
     (case retrieve env (userQuery p) of
        (Inl e, evs) \<Rightarrow> (Inl e, evs)
      | (Inr r, evs) \<Rightarrow>
          (case streamText env (req_messages p) (primary_request env req p r) of
             (res, evs') \<Rightarrow> (res, evs @ evs')))"

definition catch_block :: "env \<Rightarrow> request \<Rightarrow> parsed_request \<Rightarrow> error \<Rightarrow> (error + gen_request) \<times> event list" where
  "catch_block env req p e =
     (case streamText env (req_messages p) (fallback_request env req) of
        (res, evs) \<Rightarrow> (res, LogError e # evs))"

definition POST :: "env \<Rightarrow> request \<Rightarrow> outcome \<times> event list" where
  "POST env req =
     (case body req of
        None \<Rightarrow> (Rejected SyntaxError, [])
      | Some b \<Rightarrow>
          (case read_request env b of
             Inl e \<Rightarrow> (Rejected e, [])
           | Inr p \<Rightarrow>
               (case try_block env req p of
                  (Inr resp, evs) \<Rightarrow> (Responded resp, evs)
                | (Inl e, evs) \<Rightarrow>
                    (case catch_block env req p e of
                       (Inr resp, evs') \<Rightarrow> (Responded resp, evs @ evs')
                     | (Inl e', evs') \<Rightarrow> (Rejected e', evs @ evs')))))"

section \<open>An environment for concrete runs\<close>

text \<open>
  \<open>example_env found table\<close>: the search returns \<open>found\<close>, \<^verbatim>\<open>JSON.parse\<close> knows the strings
  of \<open>table\<close>, and generation does not throw. Its \<open>array_like_last\<close> is the runtime's
  value for an object whose \<^verbatim>\<open>length\<close> entry is missing (the key is then \<^verbatim>\<open>"NaN"\<close>) or
  is the number 1 (the key is then \<^verbatim>\<open>"0"\<close>).
\<close>

definition example_env :: "search_result list option \<Rightarrow> (string \<times> json) list \<Rightarrow> env" where
  "example_env found table =
     \<lparr>BBS_SYSTEM_PROMPT = ''You are The BBS Fitment Assistant, built for WheelPrice.'',
      vectorStores_search = (\<lambda>q n. found),
      JSON_parse = map_of table,
      JSON_stringify = (\<lambda>v. []),
      String_of = (\<lambda>v. None),
      array_like_last =
        (\<lambda>kvs. case map_of kvs ''length'' of
                 None \<Rightarrow> map_of kvs ''NaN''
               | Some n \<Rightarrow> if n = JNum 1 then map_of kvs ''0'' else None),
      streamText_throws = (\<lambda>r. False)\<rparr>"

section \<open>Notions the properties are stated with\<close>

definition is_text_part :: "json \<Rightarrow> bool" where
  "is_text_part part =
     (case part of JObj kvs \<Rightarrow> map_of kvs ''type'' = Some (JStr ''text'') | _ \<Rightarrow> False)"

fun text_strings :: "json list \<Rightarrow> string list" where
  \<comment> \<open>the strings carried by the text parts, in order\<close>
  "text_strings [] = []"
| "text_strings (JObj kvs # ps) =
     (if map_of kvs ''type'' = Some (JStr ''text'')
      then (case map_of kvs ''text'' of Some (JStr s) \<Rightarrow> s # text_strings ps | _ \<Rightarrow> text_strings ps)
      else text_strings ps)"
| "text_strings (p # ps) = text_strings ps"

definition text_carries_string :: "json \<Rightarrow> bool" where
  \<comment> \<open>a part that is tagged as text carries a string\<close>
  "text_carries_string part =
     (case part of
        JObj kvs \<Rightarrow>
          (if map_of kvs ''type'' = Some (JStr ''text'')
           then (case map_of kvs ''text'' of Some (JStr s) \<Rightarrow> True | _ \<Rightarrow> False)
           else True)
      | _ \<Rightarrow> True)"

definition is_image_part :: "json \<Rightarrow> bool" where
  \<comment> \<open>a file part whose media type starts with \<^verbatim>\<open>image/\<close>\<close>
  "is_image_part part =
     (case part of
        JObj kvs \<Rightarrow>
          map_of kvs ''type'' = Some (JStr ''file'')
          \<and> (case map_of kvs ''mediaType'' of Some (JStr s) \<Rightarrow> startsWith s ''image/'' | _ \<Rightarrow> False)
      | _ \<Rightarrow> False)"

definition user_message :: "json list \<Rightarrow> json" where
  \<comment> \<open>a message of the declared shape with the given parts\<close>
  "user_message ps = JObj [(''id'', JStr ''m1''), (''role'', JStr ''user''), (''parts'', JArr ps)]"

definition text_part :: "string \<Rightarrow> json" where
  "text_part s = JObj [(''type'', JStr ''text''), (''text'', JStr s)]"

definition file_part :: "string \<Rightarrow> json" where
  "file_part mediaType =
     JObj [(''type'', JStr ''file''), (''mediaType'', JStr mediaType), (''url'', JStr ''data:'')]"

definition example_request :: "json list \<Rightarrow> nat \<Rightarrow> request" where
  \<comment> \<open>a request with one message of the declared shape\<close>
  "example_request ps sg = \<lparr>body = Some (JObj [(''messages'', JArr [user_message ps])]), signal = sg\<rparr>"

definition expected_part :: "json \<Rightarrow> bool" where
  "expected_part part =
     (case part of
        JObj kvs \<Rightarrow>
          (map_of kvs ''type'' = Some (JStr ''text'')
             \<and> (case map_of kvs ''text'' of Some (JStr s) \<Rightarrow> True | _ \<Rightarrow> False))
          \<or> (map_of kvs ''type'' = Some (JStr ''file'')
             \<and> (case map_of kvs ''mediaType'' of Some (JStr s) \<Rightarrow> True | _ \<Rightarrow> False))
      | _ \<Rightarrow> False)"

definition expected_message :: "json \<Rightarrow> bool" where
  "expected_message m =
     (case m of
        JObj kvs \<Rightarrow>
          (case map_of kvs ''role'' of Some (JStr r) \<Rightarrow> True | _ \<Rightarrow> False)
          \<and> (case map_of kvs ''parts'' of Some (JArr ps) \<Rightarrow> list_all expected_part ps | _ \<Rightarrow> False)
      | _ \<Rightarrow> False)"

definition expected_shape :: "json \<Rightarrow> bool" where
  \<comment> \<open>Modelled from the spec: the shape of the request body. The source declares it as
      \<^verbatim>\<open>{ messages: UIMessage[] }\<close>, and \<^verbatim>\<open>UIMessage\<close> is a type of the library; the
      spec (section 6) describes it as a \<^verbatim>\<open>messages\<close> field holding a sequence of
      role-tagged messages, each with a sequence of parts tagged \<^verbatim>\<open>text\<close> (carrying a
      string) or \<^verbatim>\<open>file\<close> (carrying a media type).\<close>
  "expected_shape b =
     (case b of
        JObj kvs \<Rightarrow>
          (case map_of kvs ''messages'' of Some (JArr ms) \<Rightarrow> list_all expected_message ms | _ \<Rightarrow> False)
      | _ \<Rightarrow> False)"

definition no_last_parts :: "json \<Rightarrow> bool" where
  \<comment> \<open>the body is not an object, or its \<^verbatim>\<open>messages\<close> entry is missing, \<^verbatim>\<open>null\<close>, a
      number, a boolean, a string or an empty array, or is an array whose last element is
      not an object with an array of parts without \<^verbatim>\<open>null\<close>; an object given for
      \<^verbatim>\<open>messages\<close> is not covered\<close>
  "no_last_parts b =
     (case b of
        JObj kvs \<Rightarrow>
          (case map_of kvs ''messages'' of
             Some (JArr ms) \<Rightarrow>
               ms = []
               \<or> (case last ms of
                     JObj m \<Rightarrow>
                       (case map_of m ''parts'' of Some (JArr ps) \<Rightarrow> JNull \<in> set ps | _ \<Rightarrow> True)
                   | _ \<Rightarrow> True)
           | Some (JObj m) \<Rightarrow> False
           | _ \<Rightarrow> True)
      | _ \<Rightarrow> True)"

definition carries :: "json \<Rightarrow> json \<Rightarrow> bool" where
  \<comment> \<open>\<open>carries parsed u\<close>: \<open>u\<close> is the \<^verbatim>\<open>collection_url\<close> field of the parsed object, or of
      an element of the parsed sequence\<close>
  "carries parsed u =
     (case parsed of
        JObj kvs \<Rightarrow> map_of kvs ''collection_url'' = Some u
      | JArr items \<Rightarrow>
          list_ex (\<lambda>item. case item of
                            JObj kvs \<Rightarrow> map_of kvs ''collection_url'' = Some u
                          | _ \<Rightarrow> False) items
      | _ \<Rightarrow> False)"

definition array_like_body :: json where
  \<comment> \<open>\<^verbatim>\<open>{"messages": {"length": 1, "0": {"parts": [{"type": "text", "text": "hi"}]}}}\<close>:
      \<^verbatim>\<open>messages\<close> is an object with a length and an index, not an array\<close>
  "array_like_body =
     JObj [(''messages'',
            JObj [(''length'', JNum 1), (''0'', JObj [(''parts'', JArr [text_part ''hi''])])])]"

definition roleless_body :: json where
  \<comment> \<open>\<^verbatim>\<open>{"messages": [{"parts": [{"type": "text", "text": "hi"}]}]}\<close>: the message has no
      role\<close>
  "roleless_body = JObj [(''messages'', JArr [JObj [(''parts'', JArr [text_part ''hi''])]])]"



section \<open>Properties of the URL audit\<close>










lemma warning_for_inj: "warning_for a = warning_for b \<longleftrightarrow> a = b"
  by (simp add: warning_for_def)

lemma audit_urls_warns_sensitive:
  "w \<in> set (snd (audit_urls vs urls)) \<Longrightarrow>
     \<exists>u \<in> set urls. includes_str u ''BBSwheels.com'' \<and> w = warning_for u"
  by (induction urls arbitrary: w) (auto split: if_splits sum.splits prod.splits)

lemma validate_snd:
  "snd (validateAndFilterUrls text vs) = snd (audit_urls vs (foundUrls text))"
  by (simp add: validateAndFilterUrls_def split: prod.splits option.splits)










text \<open>
  Claim C10. The test for the sensitive domain is case-sensitive. A found URL that does
  not contain \<^verbatim>\<open>BBSwheels.com\<close> in exactly this casing, for instance one with
  \<^verbatim>\<open>bbswheels.com\<close>, never produces a warning, and the loop body does nothing for it
  whatever the trusted entries are: they are not looked at.
\<close>

theorem audit_domain_case_sensitive:
  assumes "url \<in> set (foundUrls text)" and "\<not> includes_str url ''BBSwheels.com''"
  shows "warning_for url \<notin> set (snd (validateAndFilterUrls text validUrls))
         \<and> audit_urls validUrls [url] = (None, [])"
  using assms
  by (auto simp: validate_snd warning_for_inj dest!: audit_urls_warns_sensitive)

theorem audit_domain_case_sensitive_witness:
  "''https://bbswheels.com/evil'' \<in> set (foundUrls ''See https://bbswheels.com/evil now'')
   \<and> includes_str (toLowerCase ''https://bbswheels.com/evil'') ''bbswheels.com''
   \<and> \<not> includes_str ''https://bbswheels.com/evil'' ''BBSwheels.com''
   \<and> warning_for ''https://bbswheels.com/evil''
        \<notin> set (snd (validateAndFilterUrls ''See https://bbswheels.com/evil now'' []))
   \<and> audit_urls [JNum 1] [''https://bbswheels.com/evil''] = (None, [])"
proof -
  have h1: "''https://bbswheels.com/evil'' \<in> set (foundUrls ''See https://bbswheels.com/evil now'')"
    by code_simp
  have h2: "\<not> includes_str ''https://bbswheels.com/evil'' ''BBSwheels.com''"
    by code_simp
  have h3: "includes_str (toLowerCase ''https://bbswheels.com/evil'') ''bbswheels.com''"
    by code_simp
  show ?thesis
    using h1 h2 h3
      audit_domain_case_sensitive [OF h1 h2, of "[]"]
      audit_domain_case_sensitive [OF h1 h2, of "[JNum 1]"]
    by blast
qed

section \<open>Properties of retrieval\<close>

lemma lower_char_not_B: "lower_char c \<noteq> CHR ''B''"
proof
  assume "lower_char c = CHR ''B''"
  then have "of_char (lower_char c) = (66::nat)" by simp
  then show False
    by (auto simp: lower_char_def Let_def split: if_splits)
qed

lemma includes_str_subset: "includes_str s m \<Longrightarrow> set m \<subseteq> set s"
proof (induction s)
  case Nil
  then show ?case by simp
next
  case (Cons c cs)
  show ?case
  proof (cases "startsWith (c # cs) m")
    case True
    then have "m = take (length m) (c # cs)" by (simp add: startsWith_def)
    then have "set m \<subseteq> set (c # cs)" by (metis set_take_subset)
    then show ?thesis .
  next
    case False
    with Cons show ?thesis by auto
  qed
qed

lemma never_primary: "\<not> includes_str (toLowerCase fileName) ''BBS_wheels.json''"
proof
  assume "includes_str (toLowerCase fileName) ''BBS_wheels.json''"
  then have "CHR ''B'' \<in> set (toLowerCase fileName)"
    using includes_str_subset by fastforce
  then obtain c where "lower_char c = CHR ''B''"
    by (auto simp: toLowerCase_def)
  then show False by (simp add: lower_char_not_B)
qed

lemma is_primary_False: "is_primary md = Inr b \<Longrightarrow> \<not> b"
  by (auto simp: is_primary_def never_primary split: json.splits)

lemma BBSWheelsData_empty: "partition_results env rs = Inr (bbs, other) \<Longrightarrow> bbs = []"
  by (induction rs arbitrary: bbs other)
     (auto split: sum.splits prod.splits if_splits dest: is_primary_False)

text \<open>
  Claim C1. The claim asks that entries of the primary source come first in the context
  string. The test of the handler compares the lower-cased file name with the mixed-case
  marker \<^verbatim>\<open>BBS_wheels.json\<close>, which a lower-cased string never contains
  (\<open>never_primary\<close>), so the primary group is always empty
  (\<open>BBSWheelsData_empty\<close>). For the two results \<^verbatim>\<open>other.json\<close> and
  \<^verbatim>\<open>BBS_wheels.json\<close>, returned in this order, the context string has the entry of
  \<^verbatim>\<open>other.json\<close> first and both entries are counted as secondary.
\<close>

theorem primary_entry_not_first:
  "retrieve
     (example_env
        (Some [\<lparr>content = Text ''secondary entry'',
                metadata = Some (JObj [(''file_name'', JStr ''other.json'')])\<rparr>,
               \<lparr>content = Text ''primary entry'',
                metadata = Some (JObj [(''file_name'', JStr ''BBS_wheels.json'')])\<rparr>])
        [])
     ''wheels''
   = (Inr \<lparr>contextText = ''secondary entry'' @ separator @ ''primary entry'',
           validCollectionUrls = []\<rparr>,
      [SearchCall ''wheels'' 10, LogSecondary 2])"
  by (simp add: retrieve_def example_env_def trim_def is_space_def is_primary_def
      fileName_of_def never_primary contentString_def result_urls_def)

lemma collect_urls_set:
  "set (collect_urls env results) = (\<Union>r \<in> set results. set (result_urls env r))"
  by (induction results) simp_all

lemma null_item_ends_extraction:
  "parsed_urls (JArr [JNull, JObj [(''collection_url'', JStr ''https://BBSwheels.com/collections/lm'')]]) = []"
  by (simp add: parsed_urls_def)

lemma own_url_sound:
  "u \<in> set (own_url x) \<Longrightarrow> truthy u \<and> (\<exists>kvs. x = JObj kvs \<and> map_of kvs ''collection_url'' = Some u)"
  by (cases x) (auto simp: own_url_def split: option.splits if_splits)

lemma item_urls_sound:
  "u \<in> set (item_urls items) \<Longrightarrow>
     truthy u \<and> (\<exists>kvs. JObj kvs \<in> set items \<and> map_of kvs ''collection_url'' = Some u)"
proof (induction items rule: item_urls.induct)
  case 1
  then show ?case by simp
next
  case (2 items)
  then show ?case by simp
qed (use own_url_sound in \<open>fastforce+\<close>)

lemma parsed_urls_sound:
  assumes "u \<in> set (parsed_urls parsed)"
  shows "truthy u \<and> carries parsed u"
proof (cases parsed)
  case (JArr items)
  with assms have "u \<in> set (item_urls items)" by (simp add: parsed_urls_def)
  from item_urls_sound [OF this] obtain kvs where
    "truthy u" "JObj kvs \<in> set items" "map_of kvs ''collection_url'' = Some u" by blast
  then have "list_ex (\<lambda>item. case item of JObj kvs \<Rightarrow> map_of kvs ''collection_url'' = Some u | _ \<Rightarrow> False) items"
    by (force simp: list_ex_iff)
  with JArr \<open>truthy u\<close> show ?thesis by (simp add: carries_def)
next
  case (JObj kvs)
  with assms own_url_sound [of u parsed] show ?thesis
    by (auto simp: parsed_urls_def carries_def)
qed (use assms in \<open>simp_all add: parsed_urls_def own_url_def\<close>)

lemma item_urls_before_null:
  "JNull \<notin> set pre \<Longrightarrow> map_of kvs ''collection_url'' = Some u \<Longrightarrow> truthy u \<Longrightarrow>
     u \<in> set (item_urls (pre @ JObj kvs # post))"
proof (induction pre rule: item_urls.induct)
  case 1
  then show ?case by (simp add: own_url_def)
next
  case (2 items)
  then show ?case by simp
qed simp_all

lemma contentString_parse_irrelevant:
  "contentString (env\<lparr>JSON_parse := f\<rparr>) r = contentString env r"
  by (simp add: contentString_def split: content_value.splits)

lemma partition_results_parse_irrelevant:
  "partition_results (env\<lparr>JSON_parse := f\<rparr>) rs = partition_results env rs"
  by (induction rs) (simp_all add: contentString_parse_irrelevant split: sum.splits prod.splits)

lemma retrieve_parse_irrelevant:
  "snd (retrieve (env\<lparr>JSON_parse := f\<rparr>) q) = snd (retrieve env q)
   \<and> map_sum id contextText (fst (retrieve (env\<lparr>JSON_parse := f\<rparr>) q))
       = map_sum id contextText (fst (retrieve env q))"
  by (simp add: retrieve_def partition_results_parse_irrelevant
      split: option.splits sum.splits prod.splits)

lemma retrieve_urls:
  "trim q \<noteq> [] \<Longrightarrow> vectorStores_search env q 10 = Some results \<Longrightarrow>
     retrieve env q = (Inr rt, evs) \<Longrightarrow> validCollectionUrls rt = collect_urls env results"
  by (auto simp: retrieve_def split: sum.splits prod.splits)

section \<open>Properties of the handler\<close>

lemma retrieve_events:
  "ev \<in> set (snd (retrieve env q)) \<Longrightarrow>
     trim q \<noteq> [] \<and> (ev = SearchCall q 10 \<or> (\<exists>n. ev = LogPrimary n) \<or> (\<exists>n. ev = LogSecondary n))"
  by (auto simp: retrieve_def split: if_splits option.splits sum.splits prod.splits)

lemma streamText_events:
  "ev \<in> set (snd (streamText env msgs mk)) \<Longrightarrow>
     \<exists>ms. spread msgs = Inr ms \<and> ev = GenerateCall (mk ms)"
  by (auto simp: streamText_def split: sum.splits if_splits)

lemma POST_events:
  assumes "ev \<in> set (snd (POST env req))"
  shows "\<exists>b p. body req = Some b \<and> read_request env b = Inr p
           \<and> (ev \<in> set (snd (retrieve env (userQuery p)))
              \<or> (\<exists>rt evs. retrieve env (userQuery p) = (Inr rt, evs)
                    \<and> ev \<in> set (snd (streamText env (req_messages p) (primary_request env req p rt))))
              \<or> (\<exists>e. ev = LogError e)
              \<or> ev \<in> set (snd (streamText env (req_messages p) (fallback_request env req))))"
  using assms
  by (auto simp: POST_def try_block_def catch_block_def split: option.splits sum.splits prod.splits)

lemma POST_search_calls:
  assumes "SearchCall q n \<in> set (snd (POST env req))"
  shows "\<exists>b p. body req = Some b \<and> read_request env b = Inr p \<and> q = userQuery p \<and> n = 10 \<and> trim q \<noteq> []"
proof -
  from POST_events [OF assms] obtain b p where
    bp: "body req = Some b" "read_request env b = Inr p" and
    cases: "SearchCall q n \<in> set (snd (retrieve env (userQuery p)))
            \<or> (\<exists>rt evs. retrieve env (userQuery p) = (Inr rt, evs)
                  \<and> SearchCall q n \<in> set (snd (streamText env (req_messages p) (primary_request env req p rt))))
            \<or> (\<exists>e. SearchCall q n = LogError e)
            \<or> SearchCall q n \<in> set (snd (streamText env (req_messages p) (fallback_request env req)))"
    by blast
  from cases have "SearchCall q n \<in> set (snd (retrieve env (userQuery p)))"
    by (auto dest: streamText_events)
  from retrieve_events [OF this] bp show ?thesis by auto
qed

lemma POST_generate_calls:
  assumes "GenerateCall r \<in> set (snd (POST env req))"
  shows "\<exists>b p ms. body req = Some b \<and> read_request env b = Inr p \<and> spread (req_messages p) = Inr ms
           \<and> (r = fallback_request env req ms
              \<or> (\<exists>rt evs. retrieve env (userQuery p) = (Inr rt, evs) \<and> r = primary_request env req p rt ms))"
proof -
  from POST_events [OF assms] obtain b p where
    bp: "body req = Some b" "read_request env b = Inr p" and
    cases: "GenerateCall r \<in> set (snd (retrieve env (userQuery p)))
            \<or> (\<exists>rt evs. retrieve env (userQuery p) = (Inr rt, evs)
                  \<and> GenerateCall r \<in> set (snd (streamText env (req_messages p) (primary_request env req p rt))))
            \<or> (\<exists>e. GenerateCall r = LogError e)
            \<or> GenerateCall r \<in> set (snd (streamText env (req_messages p) (fallback_request env req)))"
    by blast
  from cases bp show ?thesis
    by (auto dest!: streamText_events retrieve_events)
qed

lemma read_request_array:
  assumes "map_of kvs ''messages'' = Some (JArr ms)" "ms \<noteq> []" "last ms = JObj m"
    "map_of m ''parts'' = Some (JArr ps)"
  shows "read_request env (JObj kvs) =
     (case text_parts ps of
        Inl e \<Rightarrow> Inl e
      | Inr ts \<Rightarrow>
     (case join_texts env ts of
        Inl e \<Rightarrow> Inl e
      | Inr ss \<Rightarrow>
     (case some_image ps of
        Inl e \<Rightarrow> Inl e
      | Inr img \<Rightarrow>
          Inr \<lparr>req_messages = JArr ms, lastParts = ps, userQuery = join '' '' ss, hasImages = img\<rparr>)))"
  using assms
  by (simp add: read_request_def destructure_messages_def lastMessage_of_def parts_of_def split: sum.splits)

lemma join_texts_typed:
  "\<forall>part \<in> set ps. text_carries_string part \<Longrightarrow> text_parts ps = Inr ts \<Longrightarrow>
     join_texts env ts = Inr (text_strings ps)"
proof (induction ps arbitrary: ts rule: text_parts.induct)
  case 1
  then show ?case by simp
next
  case (2 ps)
  then show ?case by simp
next
  case (3 kvs ps)
  then show ?case
    by (auto simp: text_carries_string_def split: sum.splits if_splits option.splits json.splits)
qed simp_all

lemma text_parts_none:
  "\<forall>part \<in> set ps. \<not> is_text_part part \<Longrightarrow> text_parts ps = Inr ts \<Longrightarrow> ts = []"
proof (induction ps arbitrary: ts rule: text_parts.induct)
  case (3 kvs ps)
  then show ?case
    by (auto simp: is_text_part_def split: sum.splits if_splits)
qed simp_all

lemma some_image_iff:
  "some_image ps = Inr b \<Longrightarrow> b = (\<exists>part \<in> set ps. is_image_part part)"
proof (induction ps arbitrary: b rule: some_image.induct)
  case (3 kvs ps)
  show ?case
  proof (cases "map_of kvs ''type'' = Some (JStr ''file'')")
    case False
    with 3 show ?thesis by (simp add: is_image_part_def)
  next
    case True
    show ?thesis
    proof (cases "map_of kvs ''mediaType''")
      case None
      with True 3 show ?thesis by (simp add: is_image_part_def)
    next
      case (Some v)
      with True 3 show ?thesis
        by (cases v) (auto simp add: is_image_part_def split: if_splits)
    qed
  qed
qed (simp_all add: is_image_part_def)

lemma retrieve_blank: "trim q = [] \<Longrightarrow> retrieve env q = (Inr \<lparr>contextText = [], validCollectionUrls = []\<rparr>, [])"
  by (simp add: retrieve_def)

lemma retrieve_first:
  "trim q \<noteq> [] \<Longrightarrow> \<exists>evs. snd (retrieve env q) = SearchCall q 10 # evs"
  by (auto simp: retrieve_def split: option.splits sum.splits prod.splits)

lemma POST_events_read:
  assumes "body req = Some b" "read_request env b = Inr p"
  shows "\<exists>evs. snd (POST env req) = snd (retrieve env (userQuery p)) @ evs"
  using assms
  by (auto simp: POST_def try_block_def catch_block_def split: sum.splits prod.splits)

lemma POST_generates:
  assumes "body req = Some b" "read_request env b = Inr p" "spread (req_messages p) = Inr ms"
  shows "\<exists>r. GenerateCall r \<in> set (snd (POST env req))"
  using assms
  by (auto simp: POST_def try_block_def catch_block_def streamText_def split: sum.splits prod.splits if_splits)

lemma POST_primary_call:
  assumes "body req = Some b" "read_request env b = Inr p" "retrieve env (userQuery p) = (Inr rt, evs)"
    "spread (req_messages p) = Inr ms"
  shows "GenerateCall (primary_request env req p rt ms) \<in> set (snd (POST env req))"
  using assms
  by (auto simp: POST_def try_block_def catch_block_def streamText_def split: sum.splits prod.splits if_splits)

lemma includes_str_snoc:
  "includes_str (s @ [c]) m \<Longrightarrow> c \<notin> set m \<Longrightarrow> m \<noteq> [] \<Longrightarrow> includes_str s m"
proof (induction s)
  case Nil
  then show ?case
    by (cases m) (auto simp: startsWith_def split: if_splits)
next
  case (Cons x xs)
  show ?case
  proof (cases "startsWith (x # xs @ [c]) m")
    case False
    with Cons show ?thesis by auto
  next
    case True
    then have eq: "take (length m) ((x # xs) @ [c]) = m" by (simp add: startsWith_def)
    have "length m \<le> length (x # xs)"
    proof (rule ccontr)
      assume "\<not> length m \<le> length (x # xs)"
      then have "take (length m) ((x # xs) @ [c]) = (x # xs) @ [c]" by simp
      with eq have "c \<in> set m" by (metis in_set_conv_decomp)
      with Cons.prems show False by simp
    qed
    then have "length m - length (x # xs) = 0" by simp
    then have "take (length m) ((x # xs) @ [c]) = take (length m) (x # xs)"
      by (simp only: take_append take_0 append_Nil2)
    with eq have "take (length m) (x # xs) = m" by simp
    then show ?thesis by (simp add: startsWith_def)
  qed
qed

lemma no_marker_after_newlines:
  assumes "\<not> includes_str t ''===== VECTOR DB DATA =====''"
  shows "\<not> includes_str (t @ [CHR 0x0A, CHR 0x0A]) ''===== VECTOR DB DATA =====''"
proof
  assume "includes_str (t @ [CHR 0x0A, CHR 0x0A]) ''===== VECTOR DB DATA =====''"
  then have "includes_str ((t @ [CHR 0x0A]) @ [CHR 0x0A]) ''===== VECTOR DB DATA =====''" by simp
  then have "includes_str (t @ [CHR 0x0A]) ''===== VECTOR DB DATA =====''"
    by (rule includes_str_snoc) simp_all
  then have "includes_str t ''===== VECTOR DB DATA =====''"
    by (rule includes_str_snoc) simp_all
  with assms show False by simp
qed

lemma example_request_parts:
  "body (example_request ps sg) = Some (JObj [(''messages'', JArr [user_message ps])])"
  "map_of [(''messages'', JArr [user_message ps])] ''messages'' = Some (JArr [user_message ps])"
  "[user_message ps] \<noteq> []"
  "last [user_message ps] = JObj [(''id'', JStr ''m1''), (''role'', JStr ''user''), (''parts'', JArr ps)]"
  "map_of [(''id'', JStr ''m1''), (''role'', JStr ''user''), (''parts'', JArr ps)] ''parts'' = Some (JArr ps)"
  by (simp_all add: example_request_def user_message_def)

lemma text_parts_null: "JNull \<in> set ps \<Longrightarrow> text_parts ps = Inl TypeError"
  by (induction ps rule: text_parts.induct) (auto split: sum.splits)

lemma read_request_no_parts:
  assumes "no_last_parts b"
  shows "read_request env b = Inl TypeError"
proof (cases b)
  case (JObj kvs)
  show ?thesis
  proof (cases "map_of kvs ''messages''")
    case None
    with JObj show ?thesis
      by (simp add: read_request_def destructure_messages_def lastMessage_of_def)
  next
    case (Some v)
    show ?thesis
    proof (cases v)
      case (JArr ms)
      show ?thesis
      proof (cases "ms = []")
        case True
        with JObj Some JArr show ?thesis
          by (simp add: read_request_def destructure_messages_def lastMessage_of_def parts_of_def)
      next
        case False
        have rd: "read_request env b =
            (case parts_of (Some (last ms)) of Inl e \<Rightarrow> Inl e
             | Inr ps \<Rightarrow> (case text_parts ps of Inl e \<Rightarrow> Inl e
                | Inr ts \<Rightarrow> (case join_texts env ts of Inl e \<Rightarrow> Inl e
                   | Inr ss \<Rightarrow> (case some_image ps of Inl e \<Rightarrow> Inl e
                      | Inr img \<Rightarrow> Inr \<lparr>req_messages = JArr ms, lastParts = ps,
                                         userQuery = join '' '' ss, hasImages = img\<rparr>))))"
          using JObj Some JArr False
          by (simp add: read_request_def destructure_messages_def lastMessage_of_def split: sum.splits)
        show ?thesis
        proof (cases "last ms")
          case (JObj m)
          note lastm = this
          show ?thesis
          proof (cases "map_of m ''parts''")
            case None
            with rd lastm show ?thesis by (simp add: parts_of_def)
          next
            case (Some w)
            show ?thesis
            proof (cases w)
              case (JArr ps)
              with assms \<open>b = JObj kvs\<close> \<open>map_of kvs ''messages'' = Some v\<close> \<open>v = JArr ms\<close> False lastm Some
              have "JNull \<in> set ps" by (simp add: no_last_parts_def)
              then have "text_parts ps = Inl TypeError" by (rule text_parts_null)
              with rd lastm Some JArr show ?thesis by (simp add: parts_of_def)
            qed (use rd lastm Some in \<open>simp_all add: parts_of_def\<close>)
          qed
        qed (use rd in \<open>simp_all add: parts_of_def\<close>)
      qed
    next
      case (JObj m)
      with assms \<open>b = JObj kvs\<close> Some show ?thesis by (simp add: no_last_parts_def)
    qed (use \<open>b = JObj kvs\<close> Some in
        \<open>simp_all add: read_request_def destructure_messages_def lastMessage_of_def parts_of_def\<close>)
  qed
qed (simp_all add: read_request_def destructure_messages_def lastMessage_of_def parts_of_def)

lemma text_parts_error: "text_parts ps = Inl e \<Longrightarrow> e = TypeError"
  by (induction ps arbitrary: e rule: text_parts.induct) (auto split: sum.splits)

lemma join_texts_error: "join_texts env ts = Inl e \<Longrightarrow> e = TypeError"
  by (induction ts arbitrary: e) (auto split: sum.splits option.splits)

lemma some_image_error: "some_image ps = Inl e \<Longrightarrow> e = TypeError"
proof (induction ps arbitrary: e rule: some_image.induct)
  case (3 kvs ps)
  show ?case
  proof (cases "map_of kvs ''type'' = Some (JStr ''file'')")
    case False
    with 3 show ?thesis by simp
  next
    case True
    show ?thesis
    proof (cases "map_of kvs ''mediaType''")
      case None
      with True 3 show ?thesis by simp
    next
      case (Some v)
      with True 3 show ?thesis by (cases v) (auto split: if_splits)
    qed
  qed
qed simp_all

lemma parts_of_error: "parts_of lm = Inl e \<Longrightarrow> e = TypeError"
  by (auto simp: parts_of_def split: option.splits json.splits)

lemma lastMessage_of_error: "lastMessage_of env m = Inl e \<Longrightarrow> e = TypeError"
  by (auto simp: lastMessage_of_def split: option.splits json.splits)

lemma destructure_messages_error: "destructure_messages b = Inl e \<Longrightarrow> e = TypeError"
  by (auto simp: destructure_messages_def split: json.splits)

lemma read_request_error:
  assumes "read_request env b = Inl e"
  shows "e = TypeError"
proof (cases "destructure_messages b")
  case (Inl x)
  with assms destructure_messages_error [OF Inl] show ?thesis by (simp add: read_request_def)
next
  case m: (Inr messages)
  show ?thesis
  proof (cases "lastMessage_of env messages")
    case (Inl x)
    with assms m lastMessage_of_error [OF Inl] show ?thesis by (simp add: read_request_def)
  next
    case lm: (Inr lastMessage)
    show ?thesis
    proof (cases "parts_of lastMessage")
      case (Inl x)
      with assms m lm parts_of_error [OF Inl] show ?thesis by (simp add: read_request_def)
    next
      case ps: (Inr ps)
      show ?thesis
      proof (cases "text_parts ps")
        case (Inl x)
        with assms m lm ps text_parts_error [OF Inl] show ?thesis by (simp add: read_request_def)
      next
        case ts: (Inr ts)
        show ?thesis
        proof (cases "join_texts env ts")
          case (Inl x)
          with assms m lm ps ts join_texts_error [OF Inl] show ?thesis
            by (simp add: read_request_def)
        next
          case ss: (Inr ss)
          show ?thesis
          proof (cases "some_image ps")
            case (Inl x)
            with assms m lm ps ts ss some_image_error [OF Inl] show ?thesis
              by (simp add: read_request_def)
          next
            case (Inr img)
            with assms m lm ps ts ss show ?thesis by (simp add: read_request_def)
          qed
        qed
      qed
    qed
  qed
qed

lemma POST_events_nonempty:
  assumes "body req = Some b" "read_request env b = Inr p"
  shows "snd (POST env req) \<noteq> []"
  using assms
  by (auto simp: POST_def try_block_def catch_block_def streamText_def
      split: sum.splits prod.splits if_splits)

lemma POST_search_first:
  assumes "body req = Some b" "read_request env b = Inr p" "trim (userQuery p) \<noteq> []"
  shows "\<exists>evs. snd (POST env req) = SearchCall (userQuery p) 10 # evs"
proof -
  from POST_events_read [OF assms(1,2)] obtain evs
    where "snd (POST env req) = snd (retrieve env (userQuery p)) @ evs" by blast
  moreover from retrieve_first [OF assms(3), of env] obtain evs'
    where "snd (retrieve env (userQuery p)) = SearchCall (userQuery p) 10 # evs'" by blast
  ultimately show ?thesis by simp
qed


text \<open>
  Claim C6, as the code has it. Let retrieval run for a query that is not blank and
  complete with the search results \<open>results\<close>; its trusted list is the list that the
  audit callback of the primary generation call receives. A \<^verbatim>\<open>collection_url\<close> is
  recorded only when its value is truthy, so an empty one is not. If the content of a
  result parses to an object that carries a truthy \<^verbatim>\<open>collection_url\<close>, or to a sequence
  with an element that carries one and that no \<^verbatim>\<open>null\<close> element precedes, that value is
  in the trusted list. Every entry of the trusted list is truthy and is carried by the
  parsed content of some result. A result whose content does not parse contributes
  nothing, and parsing causes no error: with any other parser the events of retrieval and
  its context string are the same.
\<close>

theorem collection_urls_in_trusted_set:
  assumes "trim q \<noteq> []" and "vectorStores_search env q 10 = Some results"
    and "retrieve env q = (Inr rt, evs)"
  shows "(r \<in> set results \<and> JSON_parse env (contentString env r) = Some (JObj kvs)
            \<and> map_of kvs ''collection_url'' = Some u \<and> truthy u
          \<longrightarrow> u \<in> set (validCollectionUrls rt))
       \<and> (r \<in> set results \<and> JSON_parse env (contentString env r) = Some (JArr (pre @ JObj kvs # post))
            \<and> JNull \<notin> set pre \<and> map_of kvs ''collection_url'' = Some u \<and> truthy u
          \<longrightarrow> u \<in> set (validCollectionUrls rt))
       \<and> (w \<in> set (validCollectionUrls rt)
          \<longrightarrow> truthy w
              \<and> (\<exists>r' \<in> set results. \<exists>parsed.
                    JSON_parse env (contentString env r') = Some parsed \<and> carries parsed w))
       \<and> (JSON_parse env (contentString env r) = None \<longrightarrow> result_urls env r = [])
       \<and> snd (retrieve (env\<lparr>JSON_parse := f\<rparr>) q) = evs
       \<and> map_sum id contextText (fst (retrieve (env\<lparr>JSON_parse := f\<rparr>) q)) = Inr (contextText rt)
       \<and> (body req = Some b \<and> read_request env b = Inr p \<and> userQuery p = q
          \<longrightarrow> (\<forall>g. GenerateCall g \<in> set (snd (POST env req)) \<and> onFinish_urls g \<noteq> None
                    \<longrightarrow> onFinish_urls g = Some (validCollectionUrls rt))
              \<and> (\<forall>ms. spread (req_messages p) = Inr ms
                    \<longrightarrow> GenerateCall (primary_request env req p rt ms) \<in> set (snd (POST env req))))"
proof -
  note urls = retrieve_urls [OF assms]
  have a: "u \<in> set (validCollectionUrls rt)"
    if "r \<in> set results" "JSON_parse env (contentString env r) = Some (JObj kvs)"
      "map_of kvs ''collection_url'' = Some u" "truthy u"
  proof -
    from that have "u \<in> set (result_urls env r)"
      by (simp add: result_urls_def parsed_urls_def own_url_def)
    with that(1) show ?thesis by (auto simp: urls collect_urls_set)
  qed
  have b: "u \<in> set (validCollectionUrls rt)"
    if "r \<in> set results" "JSON_parse env (contentString env r) = Some (JArr (pre @ JObj kvs # post))"
      "JNull \<notin> set pre" "map_of kvs ''collection_url'' = Some u" "truthy u"
  proof -
    from that have "u \<in> set (result_urls env r)"
      by (simp add: result_urls_def parsed_urls_def item_urls_before_null)
    with that(1) show ?thesis by (auto simp: urls collect_urls_set)
  qed
  have c: "truthy w \<and> (\<exists>r' \<in> set results. \<exists>parsed.
                    JSON_parse env (contentString env r') = Some parsed \<and> carries parsed w)"
    if "w \<in> set (validCollectionUrls rt)"
  proof -
    from that obtain r' where r': "r' \<in> set results" "w \<in> set (result_urls env r')"
      by (auto simp: urls collect_urls_set)
    then have "\<exists>parsed. JSON_parse env (contentString env r') = Some parsed
        \<and> w \<in> set (parsed_urls parsed)"
      by (cases "JSON_parse env (contentString env r')") (simp_all add: result_urls_def)
    then obtain parsed where p: "JSON_parse env (contentString env r') = Some parsed"
      "w \<in> set (parsed_urls parsed)" by blast
    from parsed_urls_sound [OF p(2)] p(1) r'(1) show ?thesis by blast
  qed
  have d: "result_urls env r = []" if "JSON_parse env (contentString env r) = None"
    using that by (simp add: result_urls_def)
  have e: "snd (retrieve (env\<lparr>JSON_parse := f\<rparr>) q) = evs
       \<and> map_sum id contextText (fst (retrieve (env\<lparr>JSON_parse := f\<rparr>) q)) = Inr (contextText rt)"
    using retrieve_parse_irrelevant [where env = env and f = f and q = q] assms(3) by simp
  have g: "onFinish_urls g = Some (validCollectionUrls rt)"
    if "body req = Some b" "read_request env b = Inr p" "userQuery p = q"
      "GenerateCall g \<in> set (snd (POST env req))" "onFinish_urls g \<noteq> None" for g
    using POST_generate_calls [OF that(4)] that(1,2,3,5) assms(3)
    by (auto simp: fallback_request_def primary_request_def)
  have h: "GenerateCall (primary_request env req p rt ms) \<in> set (snd (POST env req))"
    if "body req = Some b" "read_request env b = Inr p" "userQuery p = q"
      "spread (req_messages p) = Inr ms" for ms
    using POST_primary_call [of req b env p rt evs ms] that assms(3) by simp
  show ?thesis using a b c d e g h by blast
qed

theorem collection_urls_in_trusted_set_witness:
  \<open>trim ''wheels'' \<noteq> []
   \<and> retrieve
        (example_env
           (Some [\<lparr>content = Text ''FI-R 19 x 10.5'', metadata = None\<rparr>,
                  \<lparr>content = Text ''[{"collection_url":"https://BBSwheels.com/collections/lm"},null]'',
                   metadata = None\<rparr>])
           [(''[{"collection_url":"https://BBSwheels.com/collections/lm"},null]'',
             JArr [JObj [(''collection_url'', JStr ''https://BBSwheels.com/collections/lm'')], JNull])])
        ''wheels''
      = (Inr \<lparr>contextText = ''FI-R 19 x 10.5'' @ separator
                  @ ''[{"collection_url":"https://BBSwheels.com/collections/lm"},null]'',
              validCollectionUrls = [JStr ''https://BBSwheels.com/collections/lm'']\<rparr>,
         [SearchCall ''wheels'' 10, LogSecondary 2])
   \<and> truthy (JStr ''https://BBSwheels.com/collections/lm'')
   \<and> JStr ''https://BBSwheels.com/collections/lm''
       \<in> set (validCollectionUrls
            \<lparr>contextText = ''FI-R 19 x 10.5'' @ separator
                  @ ''[{"collection_url":"https://BBSwheels.com/collections/lm"},null]'',
              validCollectionUrls = [JStr ''https://BBSwheels.com/collections/lm'']\<rparr>)
   \<and> result_urls
        (example_env
           (Some [\<lparr>content = Text ''FI-R 19 x 10.5'', metadata = None\<rparr>,
                  \<lparr>content = Text ''[{"collection_url":"https://BBSwheels.com/collections/lm"},null]'',
                   metadata = None\<rparr>])
           [(''[{"collection_url":"https://BBSwheels.com/collections/lm"},null]'',
             JArr [JObj [(''collection_url'', JStr ''https://BBSwheels.com/collections/lm'')], JNull])])
        \<lparr>content = Text ''FI-R 19 x 10.5'', metadata = None\<rparr> = []
   \<and> GenerateCall
        (primary_request
           (example_env
              (Some [\<lparr>content = Text ''FI-R 19 x 10.5'', metadata = None\<rparr>,
                     \<lparr>content = Text ''[{"collection_url":"https://BBSwheels.com/collections/lm"},null]'',
                      metadata = None\<rparr>])
              [(''[{"collection_url":"https://BBSwheels.com/collections/lm"},null]'',
                JArr [JObj [(''collection_url'', JStr ''https://BBSwheels.com/collections/lm'')], JNull])])
           (example_request [text_part ''wheels''] 1)
           \<lparr>req_messages = JArr [user_message [text_part ''wheels'']],
              lastParts = [text_part ''wheels''], userQuery = ''wheels'', hasImages = False\<rparr>
           \<lparr>contextText = ''FI-R 19 x 10.5'' @ separator
                  @ ''[{"collection_url":"https://BBSwheels.com/collections/lm"},null]'',
              validCollectionUrls = [JStr ''https://BBSwheels.com/collections/lm'']\<rparr>
           [user_message [text_part ''wheels'']])
       \<in> set (snd (POST
            (example_env
              (Some [\<lparr>content = Text ''FI-R 19 x 10.5'', metadata = None\<rparr>,
                     \<lparr>content = Text ''[{"collection_url":"https://BBSwheels.com/collections/lm"},null]'',
                      metadata = None\<rparr>])
              [(''[{"collection_url":"https://BBSwheels.com/collections/lm"},null]'',
                JArr [JObj [(''collection_url'', JStr ''https://BBSwheels.com/collections/lm'')], JNull])])
            (example_request [text_part ''wheels''] 1)))\<close>
proof -
  let ?u = "JStr ''https://BBSwheels.com/collections/lm''"
  let ?kvs = "[(''collection_url'', ?u)]"
  let ?s = \<open>''[{"collection_url":"https://BBSwheels.com/collections/lm"},null]''\<close>
  let ?plain = "\<lparr>content = Text ''FI-R 19 x 10.5'', metadata = None\<rparr>"
  let ?res = "\<lparr>content = Text ?s, metadata = None\<rparr>"
  let ?E = "example_env (Some [?plain, ?res]) [(?s, JArr [JObj ?kvs, JNull])]"
  let ?rt = "\<lparr>contextText = ''FI-R 19 x 10.5'' @ separator @ ?s, validCollectionUrls = [?u]\<rparr>"
  let ?evs = "[SearchCall ''wheels'' 10, LogSecondary 2]"
  let ?ps = "[text_part ''wheels'']"
  let ?R = "example_request ?ps 1"
  let ?p = "\<lparr>req_messages = JArr [user_message ?ps], lastParts = ?ps,
             userQuery = ''wheels'', hasImages = False\<rparr>"
  have h1: "trim ''wheels'' \<noteq> []" by (simp add: trim_def is_space_def)
  have h2: "vectorStores_search ?E ''wheels'' 10 = Some [?plain, ?res]"
    by (simp add: example_env_def)
  have h3: "retrieve ?E ''wheels'' = (Inr ?rt, ?evs)"
    by (simp add: retrieve_def example_env_def trim_def is_space_def is_primary_def
      fileName_of_def never_primary contentString_def result_urls_def parsed_urls_def own_url_def)
  have m: "?res \<in> set [?plain, ?res]" by simp
  have pr: "JSON_parse ?E (contentString ?E ?res) = Some (JArr ([] @ JObj ?kvs # [JNull]))"
    by (simp add: example_env_def contentString_def)
  have np: "JSON_parse ?E (contentString ?E ?plain) = None"
    by (simp add: example_env_def contentString_def)
  have k: "map_of ?kvs ''collection_url'' = Some ?u" by simp
  have t: "truthy ?u" by simp
  have bd: "body ?R = Some (JObj [(''messages'', JArr [user_message ?ps])])"
    by (simp add: example_request_def)
  have rd: "read_request ?E (JObj [(''messages'', JArr [user_message ?ps])]) = Inr ?p"
    by (simp add: read_request_def destructure_messages_def lastMessage_of_def parts_of_def
        user_message_def text_part_def)
  have sp: "spread (req_messages ?p) = Inr [user_message ?ps]" by (simp add: spread_def)
  note inst1 = collection_urls_in_trusted_set [OF h1 h2 h3, where r = ?res and kvs = ?kvs
      and pre = "[]" and post = "[JNull]" and u = ?u and req = ?R
      and b = "JObj [(''messages'', JArr [user_message ?ps])]" and p = ?p]
  note inst2 = collection_urls_in_trusted_set [OF h1 h2 h3, where r = ?plain]
  have c1: "?u \<in> set (validCollectionUrls ?rt)"
    using inst1 m pr k t by simp
  have c2: "result_urls ?E ?plain = []"
    using inst2 np by blast
  have c3: "GenerateCall (primary_request ?E ?R ?p ?rt [user_message ?ps]) \<in> set (snd (POST ?E ?R))"
    using inst1 bd rd sp by simp
  show ?thesis using h1 h3 t c1 c2 c3 by blast
qed

text \<open>
  Claim C6, as stated, fails: the content \<^verbatim>\<open>{"collection_url":""}\<close> parses and carries
  the field, and retrieval completes with an empty trusted list.
\<close>

theorem empty_collection_url_not_recorded:
  \<open>retrieve
      (example_env (Some [\<lparr>content = Text ''{"collection_url":""}'', metadata = None\<rparr>])
         [(''{"collection_url":""}'', JObj [(''collection_url'', JStr '''')])])
      ''wheels''
     = (Inr \<lparr>contextText = ''{"collection_url":""}'', validCollectionUrls = []\<rparr>,
        [SearchCall ''wheels'' 10, LogSecondary 1])
   \<and> JSON_parse
        (example_env (Some [\<lparr>content = Text ''{"collection_url":""}'', metadata = None\<rparr>])
           [(''{"collection_url":""}'', JObj [(''collection_url'', JStr '''')])])
        (contentString
           (example_env (Some [\<lparr>content = Text ''{"collection_url":""}'', metadata = None\<rparr>])
              [(''{"collection_url":""}'', JObj [(''collection_url'', JStr '''')])])
           \<lparr>content = Text ''{"collection_url":""}'', metadata = None\<rparr>)
      = Some (JObj [(''collection_url'', JStr '''')])
   \<and> carries (JObj [(''collection_url'', JStr '''')]) (JStr '''')
   \<and> JStr '''' \<notin> set (validCollectionUrls
          \<lparr>contextText = ''{"collection_url":""}'', validCollectionUrls = []\<rparr>)\<close>
  by (simp add: retrieve_def example_env_def trim_def is_space_def is_primary_def
      fileName_of_def never_primary contentString_def carries_def result_urls_def parsed_urls_def
      own_url_def)

text \<open>
  Claim C8, as the code has it. The handler validates nothing; a request fails early
  exactly where \<^verbatim>\<open>req.json()\<close> rejects or the reading of the last message throws. If
  the body is not valid JSON, or that reading throws, the request is rejected with no
  event at all: no search call, no generation call, no log line of the fallback. The
  reading throws in particular when the body is not an object, when \<^verbatim>\<open>messages\<close> is
  missing, \<^verbatim>\<open>null\<close>, a number, a boolean, a string or an empty array, and when it is an
  array whose last element is not an object with an array of parts without \<^verbatim>\<open>null\<close>
  (\<open>no_last_parts\<close>). Conversely, a request without events is one whose body is not
  valid JSON or whose reading throws. A body that is read without throwing is not
  rejected early, whatever else it lacks of the expected shape: the handler makes at
  least one call or log entry, and the search call comes first when the query is not blank.
\<close>

theorem malformed_body_rejected_early:
  "((body req = None
      \<or> (\<exists>b'. body req = Some b' \<and> (no_last_parts b' \<or> read_request env b' = Inl TypeError)))
     \<longrightarrow> snd (POST env req) = []
         \<and> (fst (POST env req) = Rejected SyntaxError \<or> fst (POST env req) = Rejected TypeError))
   \<and> (snd (POST env req) = []
        \<longrightarrow> body req = None \<or> (\<exists>b'. body req = Some b' \<and> read_request env b' = Inl TypeError))
   \<and> (body req = Some b \<and> read_request env b = Inr p
        \<longrightarrow> snd (POST env req) \<noteq> []
            \<and> (trim (userQuery p) \<noteq> []
                 \<longrightarrow> (\<exists>evs. snd (POST env req) = SearchCall (userQuery p) 10 # evs)))"
proof -
  have a: "snd (POST env req) = []
         \<and> (fst (POST env req) = Rejected SyntaxError \<or> fst (POST env req) = Rejected TypeError)"
    if "body req = None
      \<or> (\<exists>b'. body req = Some b' \<and> (no_last_parts b' \<or> read_request env b' = Inl TypeError))"
    using that
  proof
    assume "body req = None"
    then show ?thesis by (simp add: POST_def)
  next
    assume "\<exists>b'. body req = Some b' \<and> (no_last_parts b' \<or> read_request env b' = Inl TypeError)"
    then obtain b' where b': "body req = Some b'"
      "no_last_parts b' \<or> read_request env b' = Inl TypeError" by blast
    then have "read_request env b' = Inl TypeError"
      using read_request_no_parts by blast
    with b' show ?thesis by (simp add: POST_def)
  qed
  have b: "body req = None \<or> (\<exists>b'. body req = Some b' \<and> read_request env b' = Inl TypeError)"
    if "snd (POST env req) = []"
  proof (cases "body req")
    case None
    then show ?thesis by simp
  next
    case (Some b')
    show ?thesis
    proof (cases "read_request env b'")
      case (Inl e)
      with read_request_error have "read_request env b' = Inl TypeError" by blast
      with Some show ?thesis by simp
    next
      case (Inr p')
      from POST_events_nonempty [OF Some Inr] that show ?thesis by simp
    qed
  qed
  have c: "snd (POST env req) \<noteq> []
            \<and> (trim (userQuery p) \<noteq> []
                 \<longrightarrow> (\<exists>evs. snd (POST env req) = SearchCall (userQuery p) 10 # evs))"
    if "body req = Some b" "read_request env b = Inr p"
    using POST_events_nonempty [OF that] POST_search_first [OF that] by blast
  show ?thesis using a b c by blast
qed

theorem malformed_body_rejected_early_witness:
  "body \<lparr>body = None, signal = 3\<rparr> = None
   \<and> POST (example_env (Some []) []) \<lparr>body = None, signal = 3\<rparr> = (Rejected SyntaxError, [])
   \<and> no_last_parts (JObj [(''message'', JStr ''hi'')])
   \<and> POST (example_env (Some []) []) \<lparr>body = Some (JObj [(''message'', JStr ''hi'')]), signal = 3\<rparr>
       = (Rejected TypeError, [])
   \<and> \<not> no_last_parts (JObj [(''messages'', JArr [user_message [JObj [(''type'', JStr ''file''), (''mediaType'', JNum 5)]]])])
   \<and> read_request (example_env (Some []) [])
        (JObj [(''messages'', JArr [user_message [JObj [(''type'', JStr ''file''), (''mediaType'', JNum 5)]]])])
       = Inl TypeError
   \<and> POST (example_env (Some []) [])
        \<lparr>body = Some (JObj [(''messages'', JArr [user_message [JObj [(''type'', JStr ''file''), (''mediaType'', JNum 5)]]])]),
         signal = 3\<rparr>
       = (Rejected TypeError, [])
   \<and> read_request (example_env (Some []) []) roleless_body
       = Inr \<lparr>req_messages = JArr [JObj [(''parts'', JArr [text_part ''hi''])]],
              lastParts = [text_part ''hi''], userQuery = ''hi'', hasImages = False\<rparr>
   \<and> snd (POST (example_env (Some []) []) \<lparr>body = Some roleless_body, signal = 3\<rparr>) \<noteq> []"
proof -
  let ?E = "example_env (Some []) []"
  let ?b = "JObj [(''message'', JStr ''hi'')]"
  let ?m = "JObj [(''messages'', JArr [user_message [JObj [(''type'', JStr ''file''), (''mediaType'', JNum 5)]]])]"
  let ?p = "\<lparr>req_messages = JArr [JObj [(''parts'', JArr [text_part ''hi''])]],
              lastParts = [text_part ''hi''], userQuery = ''hi'', hasImages = False\<rparr>"
  have h1: "body \<lparr>body = None, signal = 3\<rparr> = None" by simp
  have h2: "no_last_parts ?b" by (simp add: no_last_parts_def)
  have h3: "\<not> no_last_parts ?m" by (simp add: no_last_parts_def user_message_def)
  have h4: "read_request ?E ?m = Inl TypeError"
    by (simp add: read_request_def destructure_messages_def lastMessage_of_def parts_of_def
        user_message_def)
  have h5: "read_request ?E roleless_body = Inr ?p"
    by (simp add: read_request_def roleless_body_def destructure_messages_def lastMessage_of_def
        parts_of_def text_part_def)
  have e1: "fst (POST ?E \<lparr>body = None, signal = 3\<rparr>) \<noteq> Rejected TypeError"
    by (simp add: POST_def)
  have e2: "fst (POST ?E \<lparr>body = Some ?b, signal = 3\<rparr>) \<noteq> Rejected SyntaxError"
    by (simp add: POST_def read_request_def destructure_messages_def lastMessage_of_def)
  have e3: "fst (POST ?E \<lparr>body = Some ?m, signal = 3\<rparr>) \<noteq> Rejected SyntaxError"
    by (simp add: POST_def h4)
  note i1 = malformed_body_rejected_early [where req = "\<lparr>body = None, signal = 3\<rparr>" and env = ?E]
  note i2 = malformed_body_rejected_early [where req = "\<lparr>body = Some ?b, signal = 3\<rparr>" and env = ?E]
  note i3 = malformed_body_rejected_early [where req = "\<lparr>body = Some ?m, signal = 3\<rparr>" and env = ?E]
  from i1 have s1: "snd (POST ?E \<lparr>body = None, signal = 3\<rparr>) = []"
    and f1: "fst (POST ?E \<lparr>body = None, signal = 3\<rparr>) = Rejected SyntaxError
             \<or> fst (POST ?E \<lparr>body = None, signal = 3\<rparr>) = Rejected TypeError"
    by simp_all
  from f1 e1 have "fst (POST ?E \<lparr>body = None, signal = 3\<rparr>) = Rejected SyntaxError" by blast
  with s1 have c1: "POST ?E \<lparr>body = None, signal = 3\<rparr> = (Rejected SyntaxError, [])"
    by (simp add: prod_eq_iff)
  from i2 h2 have s2: "snd (POST ?E \<lparr>body = Some ?b, signal = 3\<rparr>) = []"
    and f2: "fst (POST ?E \<lparr>body = Some ?b, signal = 3\<rparr>) = Rejected SyntaxError
             \<or> fst (POST ?E \<lparr>body = Some ?b, signal = 3\<rparr>) = Rejected TypeError"
    by simp_all
  from f2 e2 have "fst (POST ?E \<lparr>body = Some ?b, signal = 3\<rparr>) = Rejected TypeError" by blast
  with s2 have c2: "POST ?E \<lparr>body = Some ?b, signal = 3\<rparr> = (Rejected TypeError, [])"
    by (simp add: prod_eq_iff)
  from i3 h4 have s3: "snd (POST ?E \<lparr>body = Some ?m, signal = 3\<rparr>) = []"
    and f3: "fst (POST ?E \<lparr>body = Some ?m, signal = 3\<rparr>) = Rejected SyntaxError
             \<or> fst (POST ?E \<lparr>body = Some ?m, signal = 3\<rparr>) = Rejected TypeError"
    by simp_all
  from f3 e3 have "fst (POST ?E \<lparr>body = Some ?m, signal = 3\<rparr>) = Rejected TypeError" by blast
  with s3 have c3: "POST ?E \<lparr>body = Some ?m, signal = 3\<rparr> = (Rejected TypeError, [])"
    by (simp add: prod_eq_iff)
  have c4: "snd (POST ?E \<lparr>body = Some roleless_body, signal = 3\<rparr>) \<noteq> []"
    using h5 malformed_body_rejected_early [where req = "\<lparr>body = Some roleless_body, signal = 3\<rparr>"
        and env = ?E and b = roleless_body and p = ?p]
    by simp
  show ?thesis using h1 h2 h3 h4 h5 c1 c2 c3 c4 by simp
qed

text \<open>
  Claim C8, as stated, fails: a body can lack the expected shape and still be readable.
  A message without a role is read like any other, and the search call is issued. A
  \<^verbatim>\<open>messages\<close> value that is an object with a length and an index is read too: the
  search call is issued, spreading the object throws inside the \<^verbatim>\<open>try\<close> block, the
  fallback is entered and throws in the same way.
\<close>

theorem misshapen_body_reaches_retrieval:
  "\<not> expected_shape roleless_body
   \<and> SearchCall ''hi'' 10 \<in> set (snd (POST (example_env (Some []) []) \<lparr>body = Some roleless_body, signal = 3\<rparr>))
   \<and> \<not> expected_shape array_like_body
   \<and> POST (example_env (Some []) []) \<lparr>body = Some array_like_body, signal = 3\<rparr>
       = (Rejected TypeError, [SearchCall ''hi'' 10, LogError TypeError])"
proof -
  let ?E = "example_env (Some []) []"
  have a: "\<not> expected_shape roleless_body"
    by (simp add: expected_shape_def roleless_body_def expected_message_def)
  have b: "\<not> expected_shape array_like_body"
    by (simp add: expected_shape_def array_like_body_def)
  have rt: "retrieve ?E ''hi'' = (Inr \<lparr>contextText = [], validCollectionUrls = []\<rparr>, [SearchCall ''hi'' 10])"
    by (simp add: retrieve_def example_env_def trim_def is_space_def)
  have r1: "read_request ?E roleless_body
      = Inr \<lparr>req_messages = JArr [JObj [(''parts'', JArr [text_part ''hi''])]],
             lastParts = [text_part ''hi''], userQuery = ''hi'', hasImages = False\<rparr>"
    by (simp add: read_request_def roleless_body_def destructure_messages_def lastMessage_of_def
        parts_of_def text_part_def)
  have r2: "read_request ?E array_like_body
      = Inr \<lparr>req_messages = JObj [(''length'', JNum 1), (''0'', JObj [(''parts'', JArr [text_part ''hi''])])],
             lastParts = [text_part ''hi''], userQuery = ''hi'', hasImages = False\<rparr>"
    by (simp add: read_request_def array_like_body_def destructure_messages_def lastMessage_of_def
        parts_of_def text_part_def example_env_def)
  have c: "SearchCall ''hi'' 10 \<in> set (snd (POST ?E \<lparr>body = Some roleless_body, signal = 3\<rparr>))"
    by (simp add: POST_def r1 try_block_def rt streamText_def spread_def catch_block_def
        split: sum.splits prod.splits)
  have d: "POST ?E \<lparr>body = Some array_like_body, signal = 3\<rparr>
       = (Rejected TypeError, [SearchCall ''hi'' 10, LogError TypeError])"
    by (simp add: POST_def r2 try_block_def rt streamText_def spread_def catch_block_def)
  show ?thesis using a b c d by blast
qed



text \<open>
  Claim C9. A body that parses and whose \<^verbatim>\<open>messages\<close> list is empty makes the handler
  throw when it reads the parts of the missing last message, before the \<^verbatim>\<open>try\<close> block:
  the request is rejected with a type error and no call, log line or fallback happens.
\<close>

theorem empty_messages_rejected:
  assumes "body req = Some (JObj kvs)" and "map_of kvs ''messages'' = Some (JArr [])"
  shows "POST env req = (Rejected TypeError, [])"
  using assms
  by (simp add: POST_def read_request_def destructure_messages_def lastMessage_of_def parts_of_def)

theorem empty_messages_rejected_witness:
  "body \<lparr>body = Some (JObj [(''messages'', JArr [])]), signal = 7\<rparr> = Some (JObj [(''messages'', JArr [])])
   \<and> map_of [(''messages'', JArr [])] ''messages'' = Some (JArr [])
   \<and> POST (example_env (Some []) []) \<lparr>body = Some (JObj [(''messages'', JArr [])]), signal = 7\<rparr>
       = (Rejected TypeError, [])"
proof -
  have h1: "body \<lparr>body = Some (JObj [(''messages'', JArr [])]), signal = 7\<rparr> = Some (JObj [(''messages'', JArr [])])"
    by simp
  have h2: "map_of [(''messages'', JArr [])] ''messages'' = Some (JArr [])"
    by simp
  show ?thesis
    using h1 h2 empty_messages_rejected [OF h1 h2, of "example_env (Some []) []"] by simp
qed

text \<open>
  Claim C4. Let the body hold a non-empty list of messages whose last element has the
  parts \<open>ps\<close>. When every text part carries a string, every search call of the handler
  has as its query the strings of the text parts, in order, joined by one space (and asks
  for 10 results), and such a call is the first event when the request is readable and
  the query is not blank. When no part is a text part, no search call is issued and the
  system prompt of every generation call is the template, followed at most by the two
  line breaks of the assembly: the delimited context block is absent, and the prompt
  contains the marker only if the template does.
\<close>

theorem search_query_is_joined_text:
  assumes "body req = Some (JObj kvs)" and "map_of kvs ''messages'' = Some (JArr ms)"
    and "ms \<noteq> []" and "last ms = JObj m" and "map_of m ''parts'' = Some (JArr ps)"
  shows "((\<forall>part \<in> set ps. text_carries_string part) \<longrightarrow>
            (\<forall>q n. SearchCall q n \<in> set (snd (POST env req)) \<longrightarrow>
               q = join '' '' (text_strings ps) \<and> n = 10)
            \<and> (read_request env (JObj kvs) = Inr p \<and> trim (join '' '' (text_strings ps)) \<noteq> [] \<longrightarrow>
                 (\<exists>evs. snd (POST env req) = SearchCall (join '' '' (text_strings ps)) 10 # evs)))
         \<and> ((\<forall>part \<in> set ps. \<not> is_text_part part) \<longrightarrow>
              (\<forall>q n. SearchCall q n \<notin> set (snd (POST env req)))
              \<and> (\<forall>r. GenerateCall r \<in> set (snd (POST env req)) \<longrightarrow>
                    (\<exists>txt. ui_messages r = systemMessage txt # ms
                       \<and> (txt = BBS_SYSTEM_PROMPT env @ [CHR 0x0A, CHR 0x0A] \<or> txt = BBS_SYSTEM_PROMPT env)
                       \<and> (\<not> includes_str (BBS_SYSTEM_PROMPT env) ''===== VECTOR DB DATA =====''
                            \<longrightarrow> \<not> includes_str txt ''===== VECTOR DB DATA =====''))))"
proof -
  note rd = read_request_array [OF assms(2-5), of env]
  have query: "userQuery p' = join '' '' (text_strings ps)"
    if "\<forall>part \<in> set ps. text_carries_string part" and "read_request env (JObj kvs) = Inr p'" for p'
  proof -
    from that(2) rd obtain ts where ts: "text_parts ps = Inr ts"
      by (auto split: sum.splits)
    from join_texts_typed [OF that(1) ts] have "join_texts env ts = Inr (text_strings ps)" .
    with that(2) rd ts show ?thesis by (auto split: sum.splits)
  qed
  have blank: "userQuery p' = []"
    if "\<forall>part \<in> set ps. \<not> is_text_part part" and "read_request env (JObj kvs) = Inr p'" for p'
  proof -
    from that(2) rd obtain ts where ts: "text_parts ps = Inr ts"
      by (auto split: sum.splits)
    from text_parts_none [OF that(1) ts] have "ts = []" .
    with that(2) rd ts show ?thesis by (auto split: sum.splits)
  qed
  have msgs: "req_messages p' = JArr ms" if "read_request env (JObj kvs) = Inr p'" for p'
    using that rd by (auto split: sum.splits)
  have a: "q = join '' '' (text_strings ps) \<and> n = 10"
    if "\<forall>part \<in> set ps. text_carries_string part" and "SearchCall q n \<in> set (snd (POST env req))" for q n
    using POST_search_calls [OF that(2)] query [OF that(1)] assms(1) by auto
  have b: "\<exists>evs. snd (POST env req) = SearchCall (join '' '' (text_strings ps)) 10 # evs"
    if "\<forall>part \<in> set ps. text_carries_string part" and "read_request env (JObj kvs) = Inr p"
      and "trim (join '' '' (text_strings ps)) \<noteq> []"
  proof -
    from query [OF that(1,2)] have q: "userQuery p = join '' '' (text_strings ps)" .
    from POST_events_read [OF assms(1) that(2)] obtain evs
      where "snd (POST env req) = snd (retrieve env (userQuery p)) @ evs" by blast
    moreover from retrieve_first [OF that(3), of env] obtain evs'
      where "snd (retrieve env (join '' '' (text_strings ps))) = SearchCall (join '' '' (text_strings ps)) 10 # evs'"
      by blast
    ultimately show ?thesis using q by simp
  qed
  have c: "SearchCall q n \<notin> set (snd (POST env req))"
    if "\<forall>part \<in> set ps. \<not> is_text_part part" for q n
  proof
    assume "SearchCall q n \<in> set (snd (POST env req))"
    from POST_search_calls [OF this] blank [OF that] assms(1) show False
      by (auto simp: trim_def)
  qed
  have d: "\<exists>txt. ui_messages r = systemMessage txt # ms
             \<and> (txt = BBS_SYSTEM_PROMPT env @ [CHR 0x0A, CHR 0x0A] \<or> txt = BBS_SYSTEM_PROMPT env)
             \<and> (\<not> includes_str (BBS_SYSTEM_PROMPT env) ''===== VECTOR DB DATA =====''
                  \<longrightarrow> \<not> includes_str txt ''===== VECTOR DB DATA ====='')"
    if none: "\<forall>part \<in> set ps. \<not> is_text_part part" and "GenerateCall r \<in> set (snd (POST env req))" for r
  proof -
    from POST_generate_calls [OF that(2)] assms(1) obtain p' ms' where
      p': "read_request env (JObj kvs) = Inr p'" and sp: "spread (req_messages p') = Inr ms'" and
      r: "r = fallback_request env req ms'
          \<or> (\<exists>rt evs. retrieve env (userQuery p') = (Inr rt, evs) \<and> r = primary_request env req p' rt ms')"
      by auto
    from sp msgs [OF p'] have ms': "ms' = ms" by (simp add: spread_def)
    from blank [OF none p'] have "retrieve env (userQuery p') = (Inr \<lparr>contextText = [], validCollectionUrls = []\<rparr>, [])"
      by (simp add: retrieve_blank trim_def)
    with r ms' have "ui_messages r = systemMessage (BBS_SYSTEM_PROMPT env @ [CHR 0x0A, CHR 0x0A]) # ms
        \<or> ui_messages r = systemMessage (BBS_SYSTEM_PROMPT env) # ms"
      by (auto simp: fallback_request_def primary_request_def systemPromptWithContext_def)
    then show ?thesis
      using no_marker_after_newlines [of "BBS_SYSTEM_PROMPT env"] by auto
  qed
  show ?thesis using a b c d by blast
qed

theorem search_query_is_joined_text_witness:
  "(\<exists>evs. snd (POST (example_env (Some [\<lparr>content = Text ''FI-R 19 x 10.5'', metadata = None\<rparr>]) [])
                 (example_request [text_part ''find'', file_part ''image/png'', text_part ''wheels''] 1))
          = SearchCall ''find wheels'' 10 # evs)
   \<and> (\<forall>q n. SearchCall q n
          \<notin> set (snd (POST (example_env (Some [\<lparr>content = Text ''FI-R 19 x 10.5'', metadata = None\<rparr>]) [])
                        (example_request [file_part ''image/png''] 1))))"
proof -
  let ?E = "example_env (Some [\<lparr>content = Text ''FI-R 19 x 10.5'', metadata = None\<rparr>]) []"
  let ?ps = "[text_part ''find'', file_part ''image/png'', text_part ''wheels'']"
  let ?p = "\<lparr>req_messages = JArr [user_message ?ps], lastParts = ?ps,
             userQuery = ''find wheels'', hasImages = True\<rparr>"
  have typed: "\<forall>part \<in> set ?ps. text_carries_string part"
    by (simp add: text_carries_string_def text_part_def file_part_def)
  have rd: "read_request ?E (JObj [(''messages'', JArr [user_message ?ps])]) = Inr ?p"
    by (simp add: read_request_def destructure_messages_def lastMessage_of_def parts_of_def
        user_message_def text_part_def file_part_def startsWith_def)
  have q: "join '' '' (text_strings ?ps) = ''find wheels''"
    by (simp add: text_part_def file_part_def)
  have nb: "trim ''find wheels'' \<noteq> []"
    by (simp add: trim_def is_space_def)
  have none: "\<forall>part \<in> set [file_part ''image/png'']. \<not> is_text_part part"
    by (simp add: is_text_part_def file_part_def)
  show ?thesis
    using typed rd q nb none
      search_query_is_joined_text [where ps = ?ps and req = "example_request ?ps 1" and env = ?E and p = ?p,
        OF example_request_parts]
      search_query_is_joined_text [where ps = "[file_part ''image/png'']"
          and req = "example_request [file_part ''image/png''] 1" and env = ?E and p = ?p,
        OF example_request_parts]
    by simp
qed

text \<open>
  Claim C5. For a readable request whose last message has the parts \<open>ps\<close>, the visual
  flag equals the presence of a file part whose media type starts with \<^verbatim>\<open>image/\<close>, and
  every generation call of the primary path (the one with the audit callback) uses
  gpt-4o when the flag is set and gpt-4o-mini otherwise. For the message with the text
  part \<^verbatim>\<open>find wheels\<close> and one image part, the flag is set and, in every environment
  \<open>env'\<close> (so whether retrieval succeeds or throws), a generation call is made and every
  generation call uses gpt-4o.
\<close>

theorem visual_flag_selects_model:
  assumes "body req = Some (JObj kvs)" and "map_of kvs ''messages'' = Some (JArr ms)"
    and "ms \<noteq> []" and "last ms = JObj m" and "map_of m ''parts'' = Some (JArr ps)"
    and "read_request env (JObj kvs) = Inr p"
  shows "hasImages p = (\<exists>part \<in> set ps. is_image_part part)
         \<and> (\<forall>r. GenerateCall r \<in> set (snd (POST env req)) \<and> onFinish_urls r \<noteq> None \<longrightarrow>
               model r = (if hasImages p then Gpt4o else Gpt4oMini))
         \<and> read_request env' (JObj [(''messages'', JArr [user_message [text_part ''find wheels'', file_part ''image/png'']])])
             = Inr \<lparr>req_messages = JArr [user_message [text_part ''find wheels'', file_part ''image/png'']],
                    lastParts = [text_part ''find wheels'', file_part ''image/png''],
                    userQuery = ''find wheels'', hasImages = True\<rparr>
         \<and> (\<exists>r. GenerateCall r \<in> set (snd (POST env'
                \<lparr>body = Some (JObj [(''messages'', JArr [user_message [text_part ''find wheels'', file_part ''image/png'']])]),
                 signal = sg\<rparr>)))
         \<and> (\<forall>r. GenerateCall r \<in> set (snd (POST env'
                \<lparr>body = Some (JObj [(''messages'', JArr [user_message [text_part ''find wheels'', file_part ''image/png'']])]),
                 signal = sg\<rparr>)) \<longrightarrow> model r = Gpt4o)"
proof -
  note rd = read_request_array [OF assms(2-5), of env]
  from assms(6) rd obtain img where img: "some_image ps = Inr img" and hi: "hasImages p = img"
    by (auto split: sum.splits)
  have a: "hasImages p = (\<exists>part \<in> set ps. is_image_part part)"
    using some_image_iff [OF img] hi by simp
  have b: "model r = (if hasImages p then Gpt4o else Gpt4oMini)"
    if "GenerateCall r \<in> set (snd (POST env req))" and "onFinish_urls r \<noteq> None" for r
    using POST_generate_calls [OF that(1)] that(2) assms(1,6)
    by (auto simp: fallback_request_def primary_request_def)
  let ?b = "JObj [(''messages'', JArr [user_message [text_part ''find wheels'', file_part ''image/png'']])]"
  let ?req = "\<lparr>body = Some ?b, signal = sg\<rparr>"
  let ?p = "\<lparr>req_messages = JArr [user_message [text_part ''find wheels'', file_part ''image/png'']],
                    lastParts = [text_part ''find wheels'', file_part ''image/png''],
                    userQuery = ''find wheels'', hasImages = True\<rparr>"
  have c: "read_request env' ?b = Inr ?p"
    by (simp add: read_request_def destructure_messages_def lastMessage_of_def parts_of_def
        user_message_def text_part_def file_part_def startsWith_def)
  have d: "\<exists>r. GenerateCall r \<in> set (snd (POST env' ?req))"
    by (rule POST_generates [where b = ?b and p = ?p]) (simp_all add: c spread_def)
  have e: "model r = Gpt4o" if "GenerateCall r \<in> set (snd (POST env' ?req))" for r
    using POST_generate_calls [OF that] c
    by (auto simp: fallback_request_def primary_request_def)
  show ?thesis using a b c d e by blast
qed

theorem visual_flag_selects_model_witness:
  "hasImages \<lparr>req_messages = JArr [user_message [text_part ''find wheels'']],
              lastParts = [text_part ''find wheels''], userQuery = ''find wheels'', hasImages = False\<rparr>
     = False
   \<and> \<not> is_image_part (text_part ''find wheels'')
   \<and> GenerateCall (primary_request
         (example_env (Some [\<lparr>content = Text ''FI-R 19 x 10.5'', metadata = None\<rparr>]) [])
         (example_request [text_part ''find wheels''] 1)
         \<lparr>req_messages = JArr [user_message [text_part ''find wheels'']],
              lastParts = [text_part ''find wheels''], userQuery = ''find wheels'', hasImages = False\<rparr>
         \<lparr>contextText = ''FI-R 19 x 10.5'', validCollectionUrls = []\<rparr>
         [user_message [text_part ''find wheels'']])
       \<in> set (snd (POST (example_env (Some [\<lparr>content = Text ''FI-R 19 x 10.5'', metadata = None\<rparr>]) [])
                     (example_request [text_part ''find wheels''] 1)))
   \<and> model (primary_request
         (example_env (Some [\<lparr>content = Text ''FI-R 19 x 10.5'', metadata = None\<rparr>]) [])
         (example_request [text_part ''find wheels''] 1)
         \<lparr>req_messages = JArr [user_message [text_part ''find wheels'']],
              lastParts = [text_part ''find wheels''], userQuery = ''find wheels'', hasImages = False\<rparr>
         \<lparr>contextText = ''FI-R 19 x 10.5'', validCollectionUrls = []\<rparr>
         [user_message [text_part ''find wheels'']]) = Gpt4oMini"
proof -
  let ?E = "example_env (Some [\<lparr>content = Text ''FI-R 19 x 10.5'', metadata = None\<rparr>]) []"
  let ?ps = "[text_part ''find wheels'']"
  let ?R = "example_request ?ps 1"
  let ?p = "\<lparr>req_messages = JArr [user_message ?ps], lastParts = ?ps,
             userQuery = ''find wheels'', hasImages = False\<rparr>"
  let ?G = "primary_request ?E ?R ?p \<lparr>contextText = ''FI-R 19 x 10.5'', validCollectionUrls = []\<rparr> [user_message ?ps]"
  have rd: "read_request ?E (JObj [(''messages'', JArr [user_message ?ps])]) = Inr ?p"
    by (simp add: read_request_def destructure_messages_def lastMessage_of_def parts_of_def
        user_message_def text_part_def)
  have ni: "\<not> is_image_part (text_part ''find wheels'')"
    by (simp add: is_image_part_def text_part_def)
  have rt: "retrieve ?E ''find wheels''
      = (Inr \<lparr>contextText = ''FI-R 19 x 10.5'', validCollectionUrls = []\<rparr>,
         [SearchCall ''find wheels'' 10, LogSecondary 1])"
    by (simp add: retrieve_def example_env_def trim_def is_space_def is_primary_def
      fileName_of_def never_primary contentString_def result_urls_def)
  have ev: "GenerateCall ?G \<in> set (snd (POST ?E ?R))"
    using rd rt
    by (simp add: POST_def example_request_def try_block_def streamText_def spread_def)
       (simp add: example_env_def)
  have pr: "onFinish_urls ?G \<noteq> None"
    by (simp add: primary_request_def)
  show ?thesis
    using ni ev pr
      visual_flag_selects_model [where ps = ?ps and req = ?R and env = ?E and env' = ?E and sg = 1,
        OF example_request_parts rd]
    by simp
qed

end
